theory Spec2Isabelle
  imports Complex_Main
begin

section \<open>Thermal conductivity of a ball-and-spring network (ballnspring/conductivity.py)\<close>

text \<open>
  The module computes with numpy arrays of (complex) floats. Floats are modelled in exact
  arithmetic: the element type is a type variable \<open>'a\<close> of a field (the real or complex
  numbers at the call sites), so rounding, overflow and the order of a summation are
  outside the model. A division whose float result would be \<open>inf\<close> or \<open>nan\<close> (a zero
  denominator) is written out wherever the source divides.

  A one-dimensional array is a list. A two-dimensional array is the list of its rows; all
  rows of an array have the same length, and an array with no rows is taken to have no
  columns. Atom indices are natural numbers (numpy's wrap-around of negative indices is
  outside the model); an index beyond the end raises \<open>IndexError\<close>, as in numpy.

  A function that can raise returns \<open>error + 'a\<close>, with \<open>Inl\<close> the exception. The routines of
  scipy and numpy that solve (\<open>scipy.linalg.eig\<close>, \<open>np.linalg.solve\<close>) are parameters of the
  functions that call them. Names are those of the source without the leading underscore;
  the variable \<open>dim\<close> is written \<open>dim'\<close>.
\<close>

subsection \<open>Errors\<close>

datatype value_error =
    NeedOneArray      \<comment> \<open>"need at least one array to concatenate"\<close>
  | DimsMustMatch     \<comment> \<open>"all the input array dimensions except for the concatenation axis must match exactly"\<close>
  | CannotBroadcast   \<comment> \<open>"operands could not be broadcast together"\<close>
  | ShapesNotAligned  \<comment> \<open>"shapes not aligned" (np.dot)\<close>
  | InhomogeneousShape  \<comment> \<open>"the requested array has an inhomogeneous shape" (np.array)\<close>

datatype error =
    ZeroDivisionError
  | IndexError
  | ValueError value_error
  | LinAlgError

text \<open>A \<open>for\<close> loop over a list that threads a state and stops at the first exception.\<close>

fun for_each :: "'x list \<Rightarrow> ('x \<Rightarrow> 's \<Rightarrow> error + 's) \<Rightarrow> 's \<Rightarrow> error + 's" where
  "for_each [] body s = Inr s"
| "for_each (x # xs) body s =
     (case body x s of Inl e \<Rightarrow> Inl e | Inr s' \<Rightarrow> for_each xs body s')"

text \<open>
  Sequencing: \<open>ebind x f\<close> runs \<open>f\<close> on the value of \<open>x\<close>, and is the exception of \<open>x\<close> when
  \<open>x\<close> raised.
\<close>

definition ebind :: "error + 'a \<Rightarrow> ('a \<Rightarrow> error + 'b) \<Rightarrow> error + 'b" where
  "ebind x f = (case x of Inl e \<Rightarrow> Inl e | Inr v \<Rightarrow> f v)"

subsection \<open>The numpy operations the module uses\<close>

type_synonym 'a matrix = "'a list list"

definition ncols :: "'a matrix \<Rightarrow> nat" where
  "ncols A = (case A of [] \<Rightarrow> 0 | r # _ \<Rightarrow> length r)"

text \<open>The array of shape \<open>(R, C)\<close> whose entry at \<open>(r, c)\<close> is \<open>f r c\<close>.\<close>

definition mk_mat :: "nat \<Rightarrow> nat \<Rightarrow> (nat \<Rightarrow> nat \<Rightarrow> 'a) \<Rightarrow> 'a matrix" where
  "mk_mat R C f = map (\<lambda>r. map (\<lambda>c. f r c) [0..<C]) [0..<R]"

definition zeros :: "nat \<Rightarrow> nat \<Rightarrow> 'a::zero matrix" where
  "zeros R C = replicate R (replicate C 0)"

definition ones :: "nat \<Rightarrow> nat \<Rightarrow> 'a::one matrix" where
  "ones R C = replicate R (replicate C 1)"

definition identity :: "nat \<Rightarrow> 'a::{zero,one} matrix" where
  "identity n = mk_mat n n (\<lambda>r c. if r = c then 1 else 0)"

text \<open>\<open>np.repeat(m, k)\<close> on a one-dimensional array: every element \<open>k\<close> times in a row.\<close>

definition np_repeat :: "'a list \<Rightarrow> nat \<Rightarrow> 'a list" where
  "np_repeat xs k = concat (map (replicate k) xs)"

text \<open>\<open>np.diag(v)\<close> on a one-dimensional array: the square array with \<open>v\<close> on the diagonal.\<close>

definition np_diag :: "'a::zero list \<Rightarrow> 'a matrix" where
  "np_diag v = mk_mat (length v) (length v) (\<lambda>r c. if r = c then v ! r else 0)"

text \<open>
  \<open>np.array\<close> on a list of lists (numpy 1.24 and later): the two-dimensional array of
  these rows when they have one length, and \<open>ValueError\<close> when they do not.
\<close>

definition np_array :: "'a list list \<Rightarrow> error + 'a matrix" where
  "np_array xss =
     (if list_all (\<lambda>xs. length xs = ncols xss) xss then Inr xss
      else Inl (ValueError InhomogeneousShape))"

text \<open>\<open>np.hstack\<close> on a sequence of one-dimensional arrays (the rows of \<open>drivers\<close>).\<close>

definition hstack :: "'a list list \<Rightarrow> error + 'a list" where
  "hstack xss = (if xss = [] then Inl (ValueError NeedOneArray) else Inr (concat xss))"

text \<open>\<open>A[r, c]\<close>, \<open>A[r, :]\<close>, \<open>A[:, c]\<close> and the assignment \<open>A[r, c] = v\<close>.\<close>

definition getitem2 :: "'a matrix \<Rightarrow> nat \<Rightarrow> nat \<Rightarrow> error + 'a" where
  "getitem2 A r c =
     (if r < length A \<and> c < length (A ! r) then Inr (A ! r ! c) else Inl IndexError)"

definition getrow :: "'a matrix \<Rightarrow> nat \<Rightarrow> error + 'a list" where
  "getrow A r = (if r < length A then Inr (A ! r) else Inl IndexError)"

definition getcol :: "'a matrix \<Rightarrow> nat \<Rightarrow> error + 'a list" where
  "getcol A c = (if c < ncols A then Inr (map (\<lambda>row. row ! c) A) else Inl IndexError)"

definition setitem2 :: "'a matrix \<Rightarrow> nat \<Rightarrow> nat \<Rightarrow> 'a \<Rightarrow> error + 'a matrix" where
  "setitem2 A r c v =
     (if r < length A \<and> c < length (A ! r) then Inr (A[r := (A ! r)[c := v]])
      else Inl IndexError)"

text \<open>
  \<open>np.tile(v, (n,1))\<close> on a one-dimensional array: \<open>n\<close> rows, each a copy of \<open>v\<close>;
  \<open>np.transpose\<close>; \<open>-A\<close>; a scalar times an array; the sum of two one-dimensional arrays
  of one length; \<open>np.sum\<close> over all entries.
\<close>

definition tile :: "'a list \<Rightarrow> nat \<Rightarrow> 'a matrix" where
  "tile v n = replicate n v"

definition transpose_m :: "'a matrix \<Rightarrow> 'a matrix" where
  "transpose_m A = mk_mat (ncols A) (length A) (\<lambda>r c. A ! c ! r)"

definition negate :: "'a::uminus matrix \<Rightarrow> 'a matrix" where
  "negate A = map (map uminus) A"

definition scalar_mult :: "'a::times \<Rightarrow> 'a matrix \<Rightarrow> 'a matrix" where
  "scalar_mult k A = map (map ((*) k)) A"

definition vadd :: "'a::plus list \<Rightarrow> 'a list \<Rightarrow> 'a list" where
  "vadd xs ys = map2 (+) xs ys"

definition np_sum :: "'a::monoid_add matrix \<Rightarrow> 'a" where
  "np_sum A = sum_list (map sum_list A)"

text \<open>
  \<open>np.concatenate((A, B), axis=0)\<close> stacks the rows of \<open>B\<close> under those of \<open>A\<close> and needs
  equal column counts; \<open>axis=1\<close> puts the rows side by side and needs equal row counts.
\<close>

definition concatenate0 :: "'a matrix \<Rightarrow> 'a matrix \<Rightarrow> error + 'a matrix" where
  "concatenate0 A B =
     (if ncols A = ncols B then Inr (A @ B) else Inl (ValueError DimsMustMatch))"

definition concatenate1 :: "'a matrix \<Rightarrow> 'a matrix \<Rightarrow> error + 'a matrix" where
  "concatenate1 A B =
     (if length A = length B then Inr (map2 (@) A B) else Inl (ValueError DimsMustMatch))"

text \<open>
  Broadcasting of two-dimensional arrays: along each axis the two sizes are equal or one
  of them is 1, and an axis of size 1 is read at index 0 whatever the index.
\<close>

definition bdim :: "nat \<Rightarrow> nat \<Rightarrow> nat option" where
  "bdim a b = (if a = b then Some a else if a = 1 then Some b else if b = 1 then Some a else None)"

definition bget :: "'a matrix \<Rightarrow> nat \<Rightarrow> nat \<Rightarrow> 'a" where
  "bget A r c = A ! (if length A = 1 then 0 else r) ! (if ncols A = 1 then 0 else c)"

definition broadcast2 :: "('a \<Rightarrow> 'b \<Rightarrow> 'c) \<Rightarrow> 'a matrix \<Rightarrow> 'b matrix \<Rightarrow> error + 'c matrix" where
  "broadcast2 f A B =
     (case bdim (length A) (length B) of
        None \<Rightarrow> Inl (ValueError CannotBroadcast)
      | Some R \<Rightarrow>
         (case bdim (ncols A) (ncols B) of
            None \<Rightarrow> Inl (ValueError CannotBroadcast)
          | Some C \<Rightarrow> Inr (mk_mat R C (\<lambda>r c. f (bget A r c) (bget B r c)))))"

text \<open>The right-hand side of a slice assignment is broadcast to the shape of the slice.\<close>

definition broadcast_to :: "'a matrix \<Rightarrow> nat \<Rightarrow> nat \<Rightarrow> error + 'a matrix" where
  "broadcast_to A R C =
     (if (length A = R \<or> length A = 1) \<and> (ncols A = C \<or> ncols A = 1)
      then Inr (mk_mat R C (bget A)) else Inl (ValueError CannotBroadcast))"

text \<open>\<open>np.dot\<close> of two-dimensional arrays: the matrix product.\<close>

definition np_dot :: "'a::semiring_0 matrix \<Rightarrow> 'a matrix \<Rightarrow> error + 'a matrix" where
  "np_dot A B =
     (if ncols A = length B
      then Inr (mk_mat (length A) (ncols B)
                 (\<lambda>r c. sum_list (map (\<lambda>k. A ! r ! k * B ! k ! c) [0..<length B])))
      else Inl (ValueError ShapesNotAligned))"

text \<open>
  \<open>np.true_divide\<close> under \<open>np.errstate(divide="ignore", invalid="ignore")\<close>: a zero
  denominator gives \<open>inf\<close> or \<open>nan\<close> and no exception. \<open>None\<close> is that non-finite float.
\<close>

definition true_divide :: "'a::field \<Rightarrow> 'a \<Rightarrow> 'a option" where
  "true_divide x y = (if y = 0 then None else Some (x / y))"

text \<open>
  Scalar float arithmetic that may have met such a quotient: a float is \<open>Some\<close> value, or
  \<open>None\<close> when it is \<open>inf\<close> or \<open>nan\<close>; a sum with a non-finite operand is non-finite.
\<close>

definition float_add :: "'a::plus option \<Rightarrow> 'a option \<Rightarrow> 'a option" where
  "float_add x y = (case x of None \<Rightarrow> None | Some a \<Rightarrow> (case y of None \<Rightarrow> None | Some b \<Rightarrow> Some (a + b)))"

subsection \<open>The gamma matrix builder\<close>

text \<open>
  \<^verbatim>\<open>
  def _calculate_gamma_mat(dim, N, gamma, drivers):
      gmat = np.zeros((dim*N, dim*N))
      drivers = np.hstack(drivers)
      for driver in drivers:
          for i in range(dim):
              gmat[3*driver + i, 3*driver + i] = gamma
      return gmat
  \<close>
\<close>

definition calculate_gamma_mat ::
  "nat \<Rightarrow> nat \<Rightarrow> 'a::zero \<Rightarrow> nat list list \<Rightarrow> error + 'a matrix" where
  "calculate_gamma_mat dim' N gamma drivers =
     (let gmat = zeros (dim' * N) (dim' * N) in
      ebind (hstack drivers) (\<lambda>drivers.
      for_each drivers
        (\<lambda>driver. for_each [0..<dim']
           (\<lambda>i gmat. setitem2 gmat (3 * driver + i) (3 * driver + i) gamma))
        gmat))"

subsection \<open>The mass matrix builder\<close>

text \<open>Line 29 of \<open>kappa\<close>: \<^verbatim>\<open>m = np.diag(np.repeat(m,dim))\<close>.\<close>

definition mass_matrix :: "'a::zero list \<Rightarrow> nat \<Rightarrow> 'a matrix" where
  "mass_matrix m dim' = np_diag (np_repeat m dim')"

subsection \<open>The generalized eigensolver\<close>

text \<open>
  \<^verbatim>\<open>
  def _calculate_thermal_evec(K,G,M):
      N = len(M)
      a = np.zeros([N,N])
      a = np.concatenate((a,np.identity(N)),axis=1)
      b = np.concatenate((K,G),axis=1)
      c = np.concatenate((a,b),axis=0)
      x = np.identity(N)
      x = np.concatenate((x,np.zeros([N,N])),axis=1)
      y = np.concatenate((np.zeros([N,N]),-M),axis=1)
      z = np.concatenate((x,y),axis=0)
      w,vr = linalg.eig(c,b=z,right=True)
      return w,vr
  \<close>
  \<open>scipy.linalg.eig\<close> is a library routine: it is the parameter \<open>eig\<close>, which returns the
  eigenvalues and the array of right eigenvectors, or raises.
\<close>

definition calculate_thermal_evec ::
  "('a matrix \<Rightarrow> 'a matrix \<Rightarrow> error + 'b) \<Rightarrow>
   'a::{zero,one,uminus} matrix \<Rightarrow> 'a matrix \<Rightarrow> 'a matrix \<Rightarrow> error + 'b" where
  "calculate_thermal_evec eig K G M =
     (let N = length M in
      ebind (concatenate1 (zeros N N) (identity N)) (\<lambda>a.
      ebind (concatenate1 K G) (\<lambda>b.
      ebind (concatenate0 a b) (\<lambda>c.
      ebind (concatenate1 (identity N) (zeros N N)) (\<lambda>x.
      ebind (concatenate1 (zeros N N) (negate M)) (\<lambda>y.
      ebind (concatenate0 x y) (\<lambda>z.
      eig c z)))))))"

subsection \<open>The coefficient solver\<close>

text \<open>
  \<^verbatim>\<open>
  def _calculate_coeff(val, vec, massMat, gMat):
      N = len(vec)//2
      A = np.zeros((2*N, 2*N), dtype=complex)
      A[:N,:] = vec[:N,:]
      lamda = np.tile(val, (N,1))
      A[N:,:] = np.multiply(A[:N,:], np.dot(massMat,lamda) + np.dot(gMat,np.ones((N,2*N))))
      B = np.concatenate((np.zeros((N,N)), np.identity(N)), axis=0)
      return np.linalg.solve(A,B)
  \<close>
  \<open>np.linalg.solve\<close> is a library routine: it is the parameter \<open>solve\<close>, which returns the
  solution or raises (\<open>LinAlgError\<close> on a singular matrix).
\<close>

definition calculate_coeff ::
  "('a matrix \<Rightarrow> 'a matrix \<Rightarrow> error + 'b) \<Rightarrow>
   'a::field list \<Rightarrow> 'a matrix \<Rightarrow> 'a matrix \<Rightarrow> 'a matrix \<Rightarrow> error + 'b" where
  "calculate_coeff solve val vec massMat gMat =
     (let N = length vec div 2;
          A = zeros (2 * N) (2 * N) in
      ebind (broadcast_to (take N vec) N (2 * N)) (\<lambda>upper.
      let A = upper @ drop N A;
          lamda = tile val N in
      ebind (np_dot massMat lamda) (\<lambda>ml.
      ebind (np_dot gMat (ones N (2 * N))) (\<lambda>go.
      ebind (broadcast2 (+) ml go) (\<lambda>w.
      ebind (broadcast2 (*) (take N A) w) (\<lambda>scaled.
      ebind (broadcast_to scaled (length A - N) (2 * N)) (\<lambda>lower.
      let A = take N A @ lower in
      ebind (concatenate0 (zeros N N) (identity N)) (\<lambda>B.
      solve A B))))))))"

subsection \<open>The flux integrator\<close>

text \<open>
  Lines 79 to 84 of \<open>_calculate_power\<close>:
  \<^verbatim>\<open>
      val_sigma = np.tile(val, (n,1))
      val_tau = np.transpose(val_sigma)
      with np.errstate(divide="ignore", invalid="ignore"):
          valterm = np.true_divide(val_sigma-val_tau,val_sigma+val_tau)
      valterm[~np.isfinite(valterm)] = 0.
  \<close>
\<close>

definition calculate_valterm :: "'a::field list \<Rightarrow> error + 'a matrix" where
  "calculate_valterm val =
     (let n = length val;
          val_sigma = tile val n;
          val_tau = transpose_m val_sigma in
      ebind (broadcast2 (-) val_sigma val_tau) (\<lambda>num.
      ebind (broadcast2 (+) val_sigma val_tau) (\<lambda>den.
      ebind (broadcast2 true_divide num den) (\<lambda>valterm.
      Inr (map (map (\<lambda>q. case q of None \<Rightarrow> 0 | Some v \<Rightarrow> v)) valterm)))))"

text \<open>
  \<^verbatim>\<open>
  def _calculate_power(i,j, dim,val, vec, coeff, kMatrix, driverList):
      driver1 = driverList[1]
      n = len(val)
      kappa = 0.
      (lines 79 to 84: valterm)
      for idim in range(dim):
          for jdim in range(dim):
              term3 = np.tile(vec[3*i + idim,:], (n,1))
              term4 = np.transpose(np.tile(vec[3*j + jdim,:], (n,1)))
              for driver in driver1:
                  term1 = np.tile(coeff[:, 3*driver] + coeff[:, 3*driver+1] + coeff[:, 3*driver+2], (n,1))
                  term2 = np.transpose(term1)
                  termArr = kMatrix[3*i + idim, 3*j + jdim]*term1*term2*term3*term4*valterm
                  kappa += np.sum(termArr)
      return kappa
  \<close>
\<close>

definition calculate_power ::
  "nat \<Rightarrow> nat \<Rightarrow> nat \<Rightarrow> 'a::field list \<Rightarrow> 'a matrix \<Rightarrow> 'a matrix \<Rightarrow> 'a matrix \<Rightarrow>
   nat list list \<Rightarrow> error + 'a" where
  "calculate_power i j dim' val vec coeff kMatrix driverList =
     ebind (getrow driverList 1) (\<lambda>driver1.
     let n = length val in
     ebind (calculate_valterm val) (\<lambda>valterm.
     for_each [0..<dim'] (\<lambda>idim.
       for_each [0..<dim'] (\<lambda>jdim kappa.
         ebind (getrow vec (3 * i + idim)) (\<lambda>vi.
         ebind (getrow vec (3 * j + jdim)) (\<lambda>vj.
         let term3 = tile vi n;
             term4 = transpose_m (tile vj n) in
         for_each driver1 (\<lambda>driver kappa.
           ebind (getcol coeff (3 * driver)) (\<lambda>c0.
           ebind (getcol coeff (3 * driver + 1)) (\<lambda>c1.
           ebind (getcol coeff (3 * driver + 2)) (\<lambda>c2.
           let term1 = tile (vadd (vadd c0 c1) c2) n;
               term2 = transpose_m term1 in
           ebind (getitem2 kMatrix (3 * i + idim) (3 * j + jdim)) (\<lambda>kij.
           ebind (broadcast2 (*) (scalar_mult kij term1) term2) (\<lambda>t2.
           ebind (broadcast2 (*) t2 term3) (\<lambda>t3.
           ebind (broadcast2 (*) t3 term4) (\<lambda>t4.
           ebind (broadcast2 (*) t4 valterm) (\<lambda>termArr.
           Inr (kappa + np_sum termArr))))))))))
         kappa))))
     0))"

text \<open>
  \<^verbatim>\<open>
  def _calculate_power_loop(i,j, dim,val, vec, coeff, kMatrix, driverList):
      driver1 = driverList[1]
      n = len(val)//2
      kappa = 0.
      for idim in range(dim):
          for jdim in range(dim):
              for driver in driver1:
                  term = 0.
                  for sigma in range(2*n):
                      cosigma = coeff[sigma, 3*driver + 1] + coeff[sigma, 3*driver +2] + coeff[sigma, 3*driver]
                      for tau in range(2*n):
                          cotau = coeff[tau, 3*driver] + coeff[tau, 3*driver+1] + coeff[tau, 3*driver+2]
                          try:
                              term += kMatrix[3*i + idim, 3*j + jdim]*(cosigma*cotau*(vec[:n,:][3*i + idim ,sigma])*(
                                      vec[:n,:][3*j + jdim,tau])*((val[sigma]-val[tau])/(val[sigma]+val[tau])))
                          except FloatingPointError:
                              print("Divergent term")
                  kappa += term
      return kappa
  \<close>
  The scalar division runs under numpy's global error state, which the module does not
  set. It is the parameter \<open>fp_raise\<close>: when numpy is set to raise, a zero denominator
  raises \<open>FloatingPointError\<close>, the handler prints and the term is left as it was; under
  numpy's default (warn) the quotient is \<open>inf\<close> or \<open>nan\<close>, and so are the product, the
  term and the result it is added to (\<open>None\<close>), while the loops run on. \<open>val[sigma]\<close> and
  \<open>val[tau]\<close> are in range, since \<open>2*n \<le> len(val)\<close>.
\<close>

definition calculate_power_loop ::
  "bool \<Rightarrow> nat \<Rightarrow> nat \<Rightarrow> nat \<Rightarrow> 'a::field list \<Rightarrow> 'a matrix \<Rightarrow> 'a matrix \<Rightarrow> 'a matrix \<Rightarrow>
   nat list list \<Rightarrow> error + 'a option" where
  "calculate_power_loop fp_raise i j dim' val vec coeff kMatrix driverList =
     ebind (getrow driverList 1) (\<lambda>driver1.
     let n = length val div 2 in
     for_each [0..<dim'] (\<lambda>idim.
       for_each [0..<dim'] (\<lambda>jdim.
         for_each driver1 (\<lambda>driver kappa.
           ebind
             (for_each [0..<2 * n] (\<lambda>sigma term.
                ebind (getitem2 coeff sigma (3 * driver + 1)) (\<lambda>a1.
                ebind (getitem2 coeff sigma (3 * driver + 2)) (\<lambda>a2.
                ebind (getitem2 coeff sigma (3 * driver)) (\<lambda>a0.
                let cosigma = a1 + a2 + a0 in
                for_each [0..<2 * n] (\<lambda>tau term.
                  ebind (getitem2 coeff tau (3 * driver)) (\<lambda>b0.
                  ebind (getitem2 coeff tau (3 * driver + 1)) (\<lambda>b1.
                  ebind (getitem2 coeff tau (3 * driver + 2)) (\<lambda>b2.
                  let cotau = b0 + b1 + b2 in
                  ebind (getitem2 kMatrix (3 * i + idim) (3 * j + jdim)) (\<lambda>kij.
                  ebind (getitem2 (take n vec) (3 * i + idim) sigma) (\<lambda>vi.
                  ebind (getitem2 (take n vec) (3 * j + jdim) tau) (\<lambda>vj.
                  case true_divide (val ! sigma - val ! tau) (val ! sigma + val ! tau) of
                    None \<Rightarrow> Inr (if fp_raise then term else None)
                  | Some q \<Rightarrow>
                      Inr (float_add term (Some (kij * (cosigma * cotau * vi * vj * q)))))))))))
                term))))
              (Some 0))
             (\<lambda>term. Inr (float_add kappa term)))))
     (Some 0))"

subsection \<open>The entry point\<close>

text \<open>
  \<^verbatim>\<open>
  def kappa(m, k, drivers, crossings, gamma=10.):
      dim = len(k)//len(m)
      drivers = np.array(drivers)
      g = _calculate_gamma_mat(dim, len(m), gamma, drivers)
      m = np.diag(np.repeat(m,dim))
      val, vec = _calculate_thermal_evec(k, g, m)
      coeff = _calculate_coeff(val, vec, m, g)
      kappa = 0.
      for crossing in crossings:
          i,j = crossing
          kappa += _calculate_power(i,j,dim, val, vec, coeff, k, drivers)
      return kappa
  \<close>
  \<open>kappa_setup\<close> is the part before the loop (lines 22 to 33), \<open>kappa\<close> the whole function.
  A crossing is a pair, and \<open>gamma\<close> is passed explicitly. When \<open>np.array(drivers)\<close> returns,
  the array has the rows it was given, so the loop reads \<open>drivers\<close>.
\<close>

definition kappa_setup ::
  "('a matrix \<Rightarrow> 'a matrix \<Rightarrow> error + 'a list \<times> 'a matrix) \<Rightarrow>
   ('a matrix \<Rightarrow> 'a matrix \<Rightarrow> error + 'a matrix) \<Rightarrow>
   'a::field list \<Rightarrow> 'a matrix \<Rightarrow> nat list list \<Rightarrow> 'a \<Rightarrow>
   error + nat \<times> 'a list \<times> 'a matrix \<times> 'a matrix" where
  "kappa_setup eig solve m k drivers gamma =
     (if length m = 0 then Inl ZeroDivisionError
      else
        let dim' = length k div length m in
        ebind (np_array drivers) (\<lambda>drivers.
        ebind (calculate_gamma_mat dim' (length m) gamma drivers) (\<lambda>g.
        let m = mass_matrix m dim' in
        ebind (calculate_thermal_evec eig k g m) (\<lambda>(val, vec).
        ebind (calculate_coeff solve val vec m g) (\<lambda>coeff.
        Inr (dim', val, vec, coeff))))))"

definition kappa ::
  "('a matrix \<Rightarrow> 'a matrix \<Rightarrow> error + 'a list \<times> 'a matrix) \<Rightarrow>
   ('a matrix \<Rightarrow> 'a matrix \<Rightarrow> error + 'a matrix) \<Rightarrow>
   'a::field list \<Rightarrow> 'a matrix \<Rightarrow> nat list list \<Rightarrow> (nat \<times> nat) list \<Rightarrow> 'a \<Rightarrow> error + 'a" where
  "kappa eig solve m k drivers crossings gamma =
     ebind (kappa_setup eig solve m k drivers gamma) (\<lambda>(dim', val, vec, coeff).
     for_each crossings
       (\<lambda>(i, j) kappa'.
          ebind (calculate_power i j dim' val vec coeff k drivers) (\<lambda>power.
          Inr (kappa' + power)))
       0)"

subsection \<open>Valid inputs of the flux integrator, and the flux formula\<close>

text \<open>\<open>shaped R C A\<close>: the array \<open>A\<close> has the shape \<open>(R, C)\<close>.\<close>

definition shaped :: "nat \<Rightarrow> nat \<Rightarrow> 'a matrix \<Rightarrow> bool" where
  "shaped R C A \<longleftrightarrow> length A = R \<and> list_all (\<lambda>row. length row = C) A"

text \<open>
  The inputs on which the integrator reads no index out of range: with \<open>n = len(val)\<close>,
  \<open>vec\<close> is \<open>n \<times> n\<close>, \<open>coeff\<close> has \<open>n\<close> rows, \<open>kMatrix\<close> is square, there is a second driver
  group, the three coefficient columns of each of its atoms exist, and the rows
  \<open>3*i + idim\<close> and \<open>3*j + jdim\<close> exist in \<open>vec\<close> and \<open>kMatrix\<close> for \<open>idim, jdim < dim\<close>.
  The arrays that \<open>kappa\<close> passes for \<open>dim = 3\<close> and \<open>N\<close> atoms (\<open>val\<close> of length \<open>6N\<close>,
  \<open>vec\<close> \<open>6N \<times> 6N\<close>, \<open>coeff\<close> \<open>6N \<times> 3N\<close>, \<open>kMatrix\<close> \<open>3N \<times> 3N\<close>, atom indices below \<open>N\<close>)
  are of this kind.
\<close>

definition flux_input_ok ::
  "nat \<Rightarrow> nat \<Rightarrow> nat \<Rightarrow> 'a list \<Rightarrow> 'a matrix \<Rightarrow> 'a matrix \<Rightarrow> 'a matrix \<Rightarrow> nat list list \<Rightarrow> bool" where
  "flux_input_ok i j dim' val vec coeff kMatrix driverList \<longleftrightarrow>
     0 < length val
     \<and> shaped (length val) (length val) vec
     \<and> shaped (length val) (ncols coeff) coeff
     \<and> shaped (length kMatrix) (length kMatrix) kMatrix
     \<and> 1 < length driverList
     \<and> list_all (\<lambda>driver. 3 * driver + 2 < ncols coeff) (driverList ! 1)
     \<and> 3 * i + dim' \<le> length kMatrix \<and> 3 * j + dim' \<le> length kMatrix
     \<and> 3 * i + dim' \<le> length val \<and> 3 * j + dim' \<le> length val"

text \<open>
  The flux formula in the words of the specification (section 4.5): the quotient of the
  mode pair \<open>(\<sigma>, \<tau>)\<close>, replaced by zero where the denominator is zero, and the sum over the
  component pairs, the atoms of the driver group and the mode pairs.
\<close>

definition regularized :: "'a::field \<Rightarrow> 'a \<Rightarrow> 'a" where
  "regularized x y = (if y = 0 then 0 else x / y)"

definition flux_formula ::
  "nat \<Rightarrow> nat \<Rightarrow> nat \<Rightarrow> 'a::field list \<Rightarrow> 'a matrix \<Rightarrow> 'a matrix \<Rightarrow> 'a matrix \<Rightarrow> nat list \<Rightarrow> 'a" where
  "flux_formula i j dim' val vec coeff kMatrix driver1 =
     (\<Sum>idim<dim'. \<Sum>jdim<dim'. \<Sum>driver\<leftarrow>driver1. \<Sum>\<sigma><length val. \<Sum>\<tau><length val.
        kMatrix ! (3 * i + idim) ! (3 * j + jdim)
        * (coeff ! \<sigma> ! (3 * driver) + coeff ! \<sigma> ! (3 * driver + 1) + coeff ! \<sigma> ! (3 * driver + 2))
        * (coeff ! \<tau> ! (3 * driver) + coeff ! \<tau> ! (3 * driver + 1) + coeff ! \<tau> ! (3 * driver + 2))
        * vec ! (3 * i + idim) ! \<sigma>
        * vec ! (3 * j + jdim) ! \<tau>
        * regularized (val ! \<sigma> - val ! \<tau>) (val ! \<sigma> + val ! \<tau>))"

text \<open>No pair of eigenvalues sums to zero (a mode with itself included).\<close>

definition sums_nonzero :: "'a::field list \<Rightarrow> bool" where
  "sums_nonzero val \<longleftrightarrow> list_all (\<lambda>x. list_all (\<lambda>y. x + y \<noteq> 0) val) val"

text \<open>The Hessian is symmetric.\<close>

definition symmetric_m :: "'a matrix \<Rightarrow> bool" where
  "symmetric_m A \<longleftrightarrow>
     list_all (\<lambda>r. list_all (\<lambda>c. A ! r ! c = A ! c ! r) [0..<length A]) [0..<length A]"

text \<open>
  The block matrix \<open>[[A, B], [C, D]]\<close> of four \<open>N \<times> N\<close> blocks, entry by entry
  (specification, section 4.3).
\<close>

definition block2x2 :: "nat \<Rightarrow> 'a matrix \<Rightarrow> 'a matrix \<Rightarrow> 'a matrix \<Rightarrow> 'a matrix \<Rightarrow> 'a matrix" where
  "block2x2 N A B C D =
     mk_mat (2 * N) (2 * N)
       (\<lambda>r c. if r < N then (if c < N then A ! r ! c else B ! r ! (c - N))
              else (if c < N then C ! (r - N) ! c else D ! (r - N) ! (c - N)))"

section \<open>Properties\<close>

subsection \<open>Arrays\<close>

lemma length_mk_mat [simp]: "length (mk_mat R C f) = R"
  by (simp add: mk_mat_def)

lemma nth_mk_mat [simp]: "r < R \<Longrightarrow> mk_mat R C f ! r = map (f r) [0..<C]"
  by (simp add: mk_mat_def)

lemma ncols_mk_mat: "ncols (mk_mat R C f) = (if R = 0 then 0 else C)"
proof (cases R)
  case 0
  then show ?thesis by (simp add: ncols_def mk_mat_def)
next
  case (Suc k)
  then have "mk_mat R C f = map (f 0) [0..<C] # map (\<lambda>r. map (f r) [0..<C]) [1..<R]"
    by (simp add: mk_mat_def upt_conv_Cons del: upt_Suc)
  then show ?thesis using Suc by (simp add: ncols_def)
qed

lemma length_np_repeat: "length (np_repeat xs k) = k * length xs"
  by (induction xs) (simp_all add: np_repeat_def)

lemma nth_np_repeat: "i < k * length xs \<Longrightarrow> np_repeat xs k ! i = xs ! (i div k)"
proof (induction xs arbitrary: i)
  case Nil
  then show ?case by simp
next
  case (Cons x xs)
  have k: "0 < k" using Cons.prems by (cases k) simp_all
  show ?case
  proof (cases "i < k")
    case True
    then show ?thesis by (simp add: np_repeat_def nth_append)
  next
    case False
    then have "i - k < k * length xs" using Cons.prems by simp
    then have "np_repeat xs k ! (i - k) = xs ! ((i - k) div k)" by (rule Cons.IH)
    moreover have "i div k = Suc ((i - k) div k)"
      using False k by (simp add: le_div_geq)
    ultimately show ?thesis using False by (simp add: np_repeat_def nth_append)
  qed
qed

lemma ebind_Inr [simp]: "ebind (Inr v) f = f v"
  by (simp add: ebind_def)

lemma ebind_Inl [simp]: "ebind (Inl e) f = Inl e"
  by (simp add: ebind_def)

lemma mk_mat_entry [simp]: "r < R \<Longrightarrow> c < C \<Longrightarrow> mk_mat R C f ! r ! c = f r c"
  by simp

lemma mk_mat_row_length [simp]: "r < R \<Longrightarrow> length (mk_mat R C f ! r) = C"
  by simp

lemma mk_mat_cong:
  "(\<And>r c. r < R \<Longrightarrow> c < C \<Longrightarrow> f r c = g r c) \<Longrightarrow> mk_mat R C f = mk_mat R C g"
  by (simp add: mk_mat_def)

lemma mk_mat_no_rows: "mk_mat 0 C f = []"
  by (simp add: mk_mat_def)

lemma mk_mat_nth_eq:
  "length A = R \<Longrightarrow> (\<And>r. r < R \<Longrightarrow> length (A ! r) = C) \<Longrightarrow> mk_mat R C (\<lambda>r c. A ! r ! c) = A"
  by (auto simp: mk_mat_def intro!: nth_equalityI)

lemma tile_eq_mk_mat: "tile v n = mk_mat n (length v) (\<lambda>r c. v ! c)"
  by (auto simp: tile_def mk_mat_def intro!: nth_equalityI)

lemma transpose_mk_mat:
  "transpose_m (mk_mat R C f) = mk_mat (if R = 0 then 0 else C) R (\<lambda>r c. f c r)"
  by (auto simp: transpose_m_def ncols_mk_mat intro!: mk_mat_cong)

lemma bget_mk_mat: "r < R \<Longrightarrow> c < C \<Longrightarrow> bget (mk_mat R C f) r c = f r c"
  by (auto simp: bget_def ncols_mk_mat)

lemma bdim_same [simp]: "bdim a a = Some a"
  by (simp add: bdim_def)

lemma broadcast2_mk_mat:
  "broadcast2 g (mk_mat R C a) (mk_mat R C b) = Inr (mk_mat R C (\<lambda>r c. g (a r c) (b r c)))"
proof (cases "R = 0")
  case True
  then show ?thesis by (simp add: broadcast2_def mk_mat_no_rows ncols_def)
next
  case False
  then show ?thesis
    by (auto simp: broadcast2_def ncols_mk_mat bget_mk_mat intro!: mk_mat_cong)
qed

lemma transpose_mk_mat_square: "transpose_m (mk_mat n n f) = mk_mat n n (\<lambda>r c. f c r)"
proof (cases "n = 0")
  case True
  then show ?thesis by (simp add: transpose_m_def mk_mat_no_rows ncols_def)
next
  case False
  then show ?thesis by (simp add: transpose_mk_mat)
qed

lemma map_map_mk_mat: "map (map g) (mk_mat R C f) = mk_mat R C (\<lambda>r c. g (f r c))"
  by (simp add: mk_mat_def comp_def)

lemma scalar_mult_mk_mat: "scalar_mult k (mk_mat R C f) = mk_mat R C (\<lambda>r c. k * f r c)"
  by (simp add: scalar_mult_def map_map_mk_mat)

lemma sum_list_upt: "sum_list (map f [0..<k]) = (\<Sum>x<k. f x)"
  by (simp add: interv_sum_list_conv_sum_set_nat atLeast0LessThan)

lemma np_sum_mk_mat:
  "np_sum (mk_mat R C f) = (\<Sum>r<R. \<Sum>c<C. f r c)"
  by (simp add: np_sum_def mk_mat_def comp_def interv_sum_list_conv_sum_set_nat atLeast0LessThan)

lemma shaped_eq_mk_mat: "shaped R C A \<Longrightarrow> A = mk_mat R C (\<lambda>r c. A ! r ! c)"
  by (rule mk_mat_nth_eq [symmetric]) (auto simp: shaped_def list_all_length)

lemma zeros_eq_mk_mat: "zeros R C = mk_mat R C (\<lambda>r c. 0)"
  by (auto simp: zeros_def mk_mat_def intro!: nth_equalityI)

lemma ones_eq_mk_mat: "ones R C = mk_mat R C (\<lambda>r c. 1)"
  by (auto simp: ones_def mk_mat_def intro!: nth_equalityI)

lemma negate_mk_mat: "negate (mk_mat R C f) = mk_mat R C (\<lambda>r c. - f r c)"
  by (simp add: negate_def map_map_mk_mat)

lemma negate_nth:
  "shaped R C A \<Longrightarrow> r < R \<Longrightarrow> c < C \<Longrightarrow> negate A ! r ! c = - A ! r ! c"
  by (simp add: negate_def shaped_def list_all_length)

lemma mk_mat_append:
  "mk_mat R1 C f @ mk_mat R2 C g =
     mk_mat (R1 + R2) C (\<lambda>r c. if r < R1 then f r c else g (r - R1) c)"
  by (auto simp: mk_mat_def nth_append intro!: nth_equalityI)

lemma take_mk_mat: "N \<le> R \<Longrightarrow> take N (mk_mat R C f) = mk_mat N C f"
  by (auto simp: mk_mat_def take_map)

lemma concatenate1_mk_mat:
  "concatenate1 (mk_mat R C1 f) (mk_mat R C2 g) =
     Inr (mk_mat R (C1 + C2) (\<lambda>r c. if c < C1 then f r c else g r (c - C1)))"
  by (auto simp: concatenate1_def mk_mat_def nth_append intro!: nth_equalityI)

lemma concatenate0_mk_mat:
  "concatenate0 (mk_mat R C f) (mk_mat R C g) =
     Inr (mk_mat (R + R) C (\<lambda>r c. if r < R then f r c else g (r - R) c))"
  by (simp add: concatenate0_def ncols_mk_mat mk_mat_append)

lemma broadcast_to_mk_mat:
  "0 < R \<Longrightarrow> broadcast_to (mk_mat R C f) R C = Inr (mk_mat R C f)"
  by (auto simp: broadcast_to_def ncols_mk_mat bget_mk_mat intro!: mk_mat_cong)

lemma np_dot_mk_mat:
  fixes f :: "nat \<Rightarrow> nat \<Rightarrow> 'a::semiring_0"
  assumes "0 < R" "0 < C1"
  shows "np_dot (mk_mat R C1 f) (mk_mat C1 C2 g) =
    Inr (mk_mat R C2 (\<lambda>r c. \<Sum>k<C1. f r k * g k c))"
  using assms
  by (auto simp: np_dot_def ncols_mk_mat sum_list_upt intro!: mk_mat_cong sum.cong)

subsection \<open>The flux integrator in closed form\<close>

lemma calculate_valterm_eq:
  "calculate_valterm val =
     Inr (mk_mat (length val) (length val)
            (\<lambda>\<tau> \<sigma>. regularized (val ! \<sigma> - val ! \<tau>) (val ! \<sigma> + val ! \<tau>)))"
  by (auto simp: calculate_valterm_def Let_def tile_eq_mk_mat transpose_mk_mat_square
      broadcast2_mk_mat map_map_mk_mat true_divide_def regularized_def intro!: mk_mat_cong)

lemma for_each_add:
  fixes g :: "'x \<Rightarrow> 'a::monoid_add"
  assumes "\<And>x s. x \<in> set xs \<Longrightarrow> body x s = Inr (s + g x)"
  shows "for_each xs body s = Inr (s + sum_list (map g xs))"
  using assms
proof (induction xs arbitrary: s)
  case Nil
  then show ?case by simp
next
  case (Cons x xs)
  have "body x s = Inr (s + g x)" using Cons.prems by simp
  moreover have "for_each xs body (s + g x) = Inr (s + g x + sum_list (map g xs))"
    using Cons.prems by (intro Cons.IH) simp
  ultimately show ?case by (simp add: add.assoc)
qed

lemma ncols_shaped: "length A = R \<Longrightarrow> 0 < R \<Longrightarrow> \<forall>row\<in>set A. length row = C \<Longrightarrow> ncols A = C"
  by (cases A) (simp_all add: ncols_def)

lemma map2_map_map: "map2 f (map g xs) (map h xs) = map (\<lambda>x. f (g x) (h x)) xs"
  by (induction xs) simp_all

lemma tile_map_eq_mk_mat: "tile (map f xs) n = mk_mat n (length xs) (\<lambda>r c. f (xs ! c))"
  by (auto simp: tile_eq_mk_mat intro!: mk_mat_cong)

lemma power_term:
  fixes val :: "'a::field list"
  assumes n: "length val = n" "0 < n"
    and vi: "length vi = n" and vj: "length vj = n"
    and coeff: "length coeff = n" "\<forall>row\<in>set coeff. length row = L" "3 * driver + 2 < L"
    and k: "r < length kMatrix" "c < length (kMatrix ! r)"
  shows
    "ebind (getcol coeff (3 * driver)) (\<lambda>c0.
     ebind (getcol coeff (3 * driver + 1)) (\<lambda>c1.
     ebind (getcol coeff (3 * driver + 2)) (\<lambda>c2.
     let term1 = tile (vadd (vadd c0 c1) c2) n;
         term2 = transpose_m term1 in
     ebind (getitem2 kMatrix r c) (\<lambda>kij.
     ebind (broadcast2 (*) (scalar_mult kij term1) term2) (\<lambda>t2.
     ebind (broadcast2 (*) t2 (tile vi n)) (\<lambda>t3.
     ebind (broadcast2 (*) t3 (transpose_m (tile vj n))) (\<lambda>t4.
     ebind (broadcast2 (*) t4
        (mk_mat n n (\<lambda>\<tau> \<sigma>. regularized (val ! \<sigma> - val ! \<tau>) (val ! \<sigma> + val ! \<tau>)))) (\<lambda>termArr.
     Inr (acc + np_sum termArr)))))))))
     = Inr (acc + (\<Sum>\<tau><n. \<Sum>\<sigma><n.
        kMatrix ! r ! c
        * (coeff ! \<sigma> ! (3 * driver) + coeff ! \<sigma> ! (3 * driver + 1) + coeff ! \<sigma> ! (3 * driver + 2))
        * (coeff ! \<tau> ! (3 * driver) + coeff ! \<tau> ! (3 * driver + 1) + coeff ! \<tau> ! (3 * driver + 2))
        * vi ! \<sigma> * vj ! \<tau>
        * regularized (val ! \<sigma> - val ! \<tau>) (val ! \<sigma> + val ! \<tau>)))"
proof -
  have nc: "ncols coeff = L" using coeff n by (intro ncols_shaped [of coeff n]) simp_all
  have cols: "getcol coeff (3 * driver) = Inr (map (\<lambda>row. row ! (3 * driver)) coeff)"
    "getcol coeff (3 * driver + 1) = Inr (map (\<lambda>row. row ! (3 * driver + 1)) coeff)"
    "getcol coeff (3 * driver + 2) = Inr (map (\<lambda>row. row ! (3 * driver + 2)) coeff)"
    using coeff(3) by (simp_all add: getcol_def nc)
  have k': "getitem2 kMatrix r c = Inr (kMatrix ! r ! c)" using k by (simp add: getitem2_def)
  have t1: "tile (vadd (vadd (map (\<lambda>row. row ! (3 * driver)) coeff)
        (map (\<lambda>row. row ! (3 * driver + 1)) coeff)) (map (\<lambda>row. row ! (3 * driver + 2)) coeff)) n
     = mk_mat n n (\<lambda>r c. coeff ! c ! (3 * driver) + coeff ! c ! (3 * driver + 1) + coeff ! c ! (3 * driver + 2))"
    by (simp add: vadd_def map2_map_map tile_map_eq_mk_mat coeff(1))
  have t3: "tile vi n = mk_mat n n (\<lambda>r c. vi ! c)" by (simp add: tile_eq_mk_mat vi)
  have t4: "tile vj n = mk_mat n n (\<lambda>r c. vj ! c)" by (simp add: tile_eq_mk_mat vj)
  show ?thesis
    unfolding cols ebind_Inr Let_def k' t1 t3 t4 transpose_mk_mat_square scalar_mult_mk_mat
      broadcast2_mk_mat np_sum_mk_mat ..
qed


lemma calculate_power_closed:
  fixes val :: "'a::field list"
  assumes drv: "1 < length driverList"
    and n: "length val = n" "0 < n"
    and veci: "\<forall>idim<dim'. 3 * i + idim < length vec \<and> length (vec ! (3 * i + idim)) = n"
    and vecj: "\<forall>jdim<dim'. 3 * j + jdim < length vec \<and> length (vec ! (3 * j + jdim)) = n"
    and coeff: "length coeff = n" "\<forall>row\<in>set coeff. length row = L"
      "\<forall>d\<in>set (driverList ! 1). 3 * d + 2 < L"
    and k: "\<forall>idim<dim'. \<forall>jdim<dim'.
      3 * i + idim < length kMatrix \<and> 3 * j + jdim < length (kMatrix ! (3 * i + idim))"
  shows "calculate_power i j dim' val vec coeff kMatrix driverList =
    Inr (flux_formula i j dim' val vec coeff kMatrix (driverList ! 1))"
proof -
  let ?driver1 = "driverList ! 1"
  let ?vt = "mk_mat n n (\<lambda>\<tau> \<sigma>. regularized (val ! \<sigma> - val ! \<tau>) (val ! \<sigma> + val ! \<tau>))"
  let ?T = "\<lambda>idim jdim driver. \<Sum>\<tau><n. \<Sum>\<sigma><n.
        kMatrix ! (3 * i + idim) ! (3 * j + jdim)
        * (coeff ! \<sigma> ! (3 * driver) + coeff ! \<sigma> ! (3 * driver + 1) + coeff ! \<sigma> ! (3 * driver + 2))
        * (coeff ! \<tau> ! (3 * driver) + coeff ! \<tau> ! (3 * driver + 1) + coeff ! \<tau> ! (3 * driver + 2))
        * vec ! (3 * i + idim) ! \<sigma> * vec ! (3 * j + jdim) ! \<tau>
        * regularized (val ! \<sigma> - val ! \<tau>) (val ! \<sigma> + val ! \<tau>)"
  let ?inner = "\<lambda>idim jdim. (\<lambda>driver kappa.
           ebind (getcol coeff (3 * driver)) (\<lambda>c0.
           ebind (getcol coeff (3 * driver + 1)) (\<lambda>c1.
           ebind (getcol coeff (3 * driver + 2)) (\<lambda>c2.
           let term1 = tile (vadd (vadd c0 c1) c2) n;
               term2 = transpose_m term1 in
           ebind (getitem2 kMatrix (3 * i + idim) (3 * j + jdim)) (\<lambda>kij.
           ebind (broadcast2 (*) (scalar_mult kij term1) term2) (\<lambda>t2.
           ebind (broadcast2 (*) t2 (tile (vec ! (3 * i + idim)) n)) (\<lambda>t3.
           ebind (broadcast2 (*) t3 (transpose_m (tile (vec ! (3 * j + jdim)) n))) (\<lambda>t4.
           ebind (broadcast2 (*) t4 ?vt) (\<lambda>termArr.
           Inr (kappa + np_sum termArr))))))))))"
  let ?mid = "\<lambda>idim. (\<lambda>jdim kappa.
         ebind (getrow vec (3 * i + idim)) (\<lambda>vi.
         ebind (getrow vec (3 * j + jdim)) (\<lambda>vj.
         let term3 = tile vi n;
             term4 = transpose_m (tile vj n) in
         for_each ?driver1 (\<lambda>driver kappa.
           ebind (getcol coeff (3 * driver)) (\<lambda>c0.
           ebind (getcol coeff (3 * driver + 1)) (\<lambda>c1.
           ebind (getcol coeff (3 * driver + 2)) (\<lambda>c2.
           let term1 = tile (vadd (vadd c0 c1) c2) n;
               term2 = transpose_m term1 in
           ebind (getitem2 kMatrix (3 * i + idim) (3 * j + jdim)) (\<lambda>kij.
           ebind (broadcast2 (*) (scalar_mult kij term1) term2) (\<lambda>t2.
           ebind (broadcast2 (*) t2 term3) (\<lambda>t3.
           ebind (broadcast2 (*) t3 term4) (\<lambda>t4.
           ebind (broadcast2 (*) t4 ?vt) (\<lambda>termArr.
           Inr (kappa + np_sum termArr))))))))))
         kappa)))"
  have inner: "for_each ?driver1 (?inner idim jdim) acc =
      Inr (acc + (\<Sum>driver\<leftarrow>?driver1. ?T idim jdim driver))"
    if "idim < dim'" "jdim < dim'" for idim jdim acc
  proof (rule for_each_add)
    fix driver s assume d: "driver \<in> set ?driver1"
    show "?inner idim jdim driver s = Inr (s + ?T idim jdim driver)"
      using that d veci vecj coeff k n by (intro power_term [where L = L]) simp_all
  qed
  have mid: "for_each [0..<dim'] (?mid idim) acc =
      Inr (acc + (\<Sum>jdim\<leftarrow>[0..<dim']. \<Sum>driver\<leftarrow>?driver1. ?T idim jdim driver))"
    if "idim < dim'" for idim acc
  proof (rule for_each_add)
    fix jdim s assume "jdim \<in> set [0..<dim']"
    then have j: "jdim < dim'" by simp
    have "getrow vec (3 * i + idim) = Inr (vec ! (3 * i + idim))"
      "getrow vec (3 * j + jdim) = Inr (vec ! (3 * j + jdim))"
      using that j veci vecj by (simp_all add: getrow_def)
    then show "?mid idim jdim s = Inr (s + (\<Sum>driver\<leftarrow>?driver1. ?T idim jdim driver))"
      using inner [OF that j, of s] by (simp add: Let_def)
  qed
  have outer: "for_each [0..<dim'] (\<lambda>idim. for_each [0..<dim'] (?mid idim)) (0::'a) =
      Inr (0 + (\<Sum>idim\<leftarrow>[0..<dim']. \<Sum>jdim\<leftarrow>[0..<dim']. \<Sum>driver\<leftarrow>?driver1. ?T idim jdim driver))"
  proof (rule for_each_add)
    fix idim s assume "idim \<in> set [0..<dim']"
    then have "idim < dim'" by simp
    then show "for_each [0..<dim'] (?mid idim) s =
      Inr (s + (\<Sum>jdim\<leftarrow>[0..<dim']. \<Sum>driver\<leftarrow>?driver1. ?T idim jdim driver))"
      by (rule mid)
  qed
  have swap: "?T idim jdim driver = (\<Sum>\<sigma><n. \<Sum>\<tau><n.
        kMatrix ! (3 * i + idim) ! (3 * j + jdim)
        * (coeff ! \<sigma> ! (3 * driver) + coeff ! \<sigma> ! (3 * driver + 1) + coeff ! \<sigma> ! (3 * driver + 2))
        * (coeff ! \<tau> ! (3 * driver) + coeff ! \<tau> ! (3 * driver + 1) + coeff ! \<tau> ! (3 * driver + 2))
        * vec ! (3 * i + idim) ! \<sigma> * vec ! (3 * j + jdim) ! \<tau>
        * regularized (val ! \<sigma> - val ! \<tau>) (val ! \<sigma> + val ! \<tau>))" for idim jdim driver
    by (rule sum.swap)
  have "calculate_power i j dim' val vec coeff kMatrix driverList =
      for_each [0..<dim'] (\<lambda>idim. for_each [0..<dim'] (?mid idim)) 0"
    using drv by (simp add: calculate_power_def getrow_def calculate_valterm_eq n Let_def)
  then show ?thesis
    unfolding outer flux_formula_def swap sum_list_upt n by simp
qed

lemma shapedD: "shaped R C A \<Longrightarrow> length A = R \<and> (\<forall>row\<in>set A. length row = C)"
  by (simp add: shaped_def list_all_iff)

lemma shaped_nth: "shaped R C A \<Longrightarrow> r < R \<Longrightarrow> length (A ! r) = C"
  by (auto simp: shaped_def list_all_length)

lemma shaped_mk_mat [simp]: "shaped R C (mk_mat R C f)"
  by (simp add: shaped_def list_all_length)

lemma flux_input_ok_swap:
  "flux_input_ok i j dim' val vec coeff kMatrix driverList \<Longrightarrow>
   flux_input_ok j i dim' val vec coeff kMatrix driverList"
  by (simp add: flux_input_ok_def)

lemma calculate_power_flux_formula:
  fixes val :: "'a::field list"
  assumes ok: "flux_input_ok i j dim' val vec coeff kMatrix driverList"
  shows "calculate_power i j dim' val vec coeff kMatrix driverList =
    Inr (flux_formula i j dim' val vec coeff kMatrix (driverList ! 1))"
proof (rule calculate_power_closed [where n = "length val" and L = "ncols coeff"])
  note s = ok [unfolded flux_input_ok_def]
  show "1 < length driverList" "length val = length val" "0 < length val" using s by simp_all
  show "\<forall>idim<dim'. 3 * i + idim < length vec \<and> length (vec ! (3 * i + idim)) = length val"
    using s by (auto simp: shaped_def list_all_length)
  show "\<forall>jdim<dim'. 3 * j + jdim < length vec \<and> length (vec ! (3 * j + jdim)) = length val"
    using s by (auto simp: shaped_def list_all_length)
  show "length coeff = length val" "\<forall>row\<in>set coeff. length row = ncols coeff"
    using s by (simp_all add: shaped_def list_all_iff)
  show "\<forall>d\<in>set (driverList ! 1). 3 * d + 2 < ncols coeff"
    using s by (simp add: list_all_iff)
  show "\<forall>idim<dim'. \<forall>jdim<dim'.
      3 * i + idim < length kMatrix \<and> 3 * j + jdim < length (kMatrix ! (3 * i + idim))"
    using s by (auto simp: shaped_def list_all_length)
qed

lemma regularized_antisym:
  "regularized (y - x) (y + x) = - regularized (x - y) (x + y)"
  by (simp add: regularized_def add.commute minus_divide_left)

lemma sum_list_map_uminus:
  fixes f :: "'x \<Rightarrow> 'a::ab_group_add"
  shows "(\<Sum>x\<leftarrow>xs. - f x) = - (\<Sum>x\<leftarrow>xs. f x)"
  by (induction xs) simp_all

lemma flux_formula_swap:
  fixes val :: "'a::field list"
  assumes sym: "\<forall>r<length kMatrix. \<forall>c<length kMatrix. kMatrix ! r ! c = kMatrix ! c ! r"
    and i: "3 * i + dim' \<le> length kMatrix" and j: "3 * j + dim' \<le> length kMatrix"
  shows "flux_formula j i dim' val vec coeff kMatrix driver1 =
    - flux_formula i j dim' val vec coeff kMatrix driver1"
proof -
  let ?n = "length val"
  let ?T = "\<lambda>i j idim jdim driver \<sigma> \<tau>.
        kMatrix ! (3 * i + idim) ! (3 * j + jdim)
        * (coeff ! \<sigma> ! (3 * driver) + coeff ! \<sigma> ! (3 * driver + 1) + coeff ! \<sigma> ! (3 * driver + 2))
        * (coeff ! \<tau> ! (3 * driver) + coeff ! \<tau> ! (3 * driver + 1) + coeff ! \<tau> ! (3 * driver + 2))
        * vec ! (3 * i + idim) ! \<sigma>
        * vec ! (3 * j + jdim) ! \<tau>
        * regularized (val ! \<sigma> - val ! \<tau>) (val ! \<sigma> + val ! \<tau>)"
  have pair: "?T j i b a driver \<tau> \<sigma> = - ?T i j a b driver \<sigma> \<tau>"
    if "a < dim'" "b < dim'" for a b driver \<sigma> \<tau>
  proof -
    have "kMatrix ! (3 * j + b) ! (3 * i + a) = kMatrix ! (3 * i + a) ! (3 * j + b)"
      using sym i j that by simp
    then show ?thesis
      by (simp add: regularized_antisym [of "val ! \<sigma>" "val ! \<tau>"])
  qed
  have modes: "(\<Sum>\<sigma><?n. \<Sum>\<tau><?n. ?T j i b a driver \<sigma> \<tau>) = - (\<Sum>\<sigma><?n. \<Sum>\<tau><?n. ?T i j a b driver \<sigma> \<tau>)"
    if "a < dim'" "b < dim'" for a b driver
  proof -
    have "(\<Sum>\<sigma><?n. \<Sum>\<tau><?n. ?T j i b a driver \<sigma> \<tau>) = (\<Sum>\<sigma><?n. \<Sum>\<tau><?n. ?T j i b a driver \<tau> \<sigma>)"
      by (rule sum.swap)
    also have "\<dots> = (\<Sum>\<sigma><?n. \<Sum>\<tau><?n. - ?T i j a b driver \<sigma> \<tau>)"
      using pair [OF that] by simp
    also have "\<dots> = - (\<Sum>\<sigma><?n. \<Sum>\<tau><?n. ?T i j a b driver \<sigma> \<tau>)"
      by (simp add: sum_negf)
    finally show ?thesis .
  qed
  have "flux_formula j i dim' val vec coeff kMatrix driver1 =
      (\<Sum>b<dim'. \<Sum>a<dim'. \<Sum>driver\<leftarrow>driver1. \<Sum>\<sigma><?n. \<Sum>\<tau><?n. ?T j i b a driver \<sigma> \<tau>)"
    by (simp add: flux_formula_def)
  also have "\<dots> = (\<Sum>a<dim'. \<Sum>b<dim'. \<Sum>driver\<leftarrow>driver1. \<Sum>\<sigma><?n. \<Sum>\<tau><?n. ?T j i b a driver \<sigma> \<tau>)"
    by (rule sum.swap)
  also have "\<dots> = (\<Sum>a<dim'. \<Sum>b<dim'. \<Sum>driver\<leftarrow>driver1. - (\<Sum>\<sigma><?n. \<Sum>\<tau><?n. ?T i j a b driver \<sigma> \<tau>))"
    by (intro sum.cong refl arg_cong [where f = sum_list] map_cong modes) simp_all
  also have "\<dots> = - flux_formula i j dim' val vec coeff kMatrix driver1"
    by (simp add: flux_formula_def sum_negf sum_list_map_uminus)
  finally show ?thesis .
qed

lemma sums_nonzeroD:
  "sums_nonzero val \<Longrightarrow> \<sigma> < length val \<Longrightarrow> \<tau> < length val \<Longrightarrow> val ! \<sigma> + val ! \<tau> \<noteq> 0"
  by (simp add: sums_nonzero_def list_all_length)

lemma for_each_add_some:
  fixes g :: "'x \<Rightarrow> 'a::monoid_add"
  assumes "\<And>x s. x \<in> set xs \<Longrightarrow> body x (Some s) = Inr (Some (s + g x))"
  shows "for_each xs body (Some s) = Inr (Some (s + sum_list (map g xs)))"
  using assms
proof (induction xs arbitrary: s)
  case Nil
  then show ?case by simp
next
  case (Cons x xs)
  have "body x (Some s) = Inr (Some (s + g x))" using Cons.prems by simp
  moreover have "for_each xs body (Some (s + g x)) = Inr (Some (s + g x + sum_list (map g xs)))"
    using Cons.prems by (intro Cons.IH) simp
  ultimately show ?case by (simp add: add.assoc)
qed

lemma calculate_power_loop_flux_formula:
  fixes val :: "'a::field list"
  assumes ok: "flux_input_ok i j dim' val vec coeff kMatrix driverList"
    and ev: "even (length val)"
    and half: "3 * i + dim' \<le> length val div 2" "3 * j + dim' \<le> length val div 2"
    and nz: "sums_nonzero val"
  shows "calculate_power_loop fp_raise i j dim' val vec coeff kMatrix driverList =
    Inr (Some (flux_formula i j dim' val vec coeff kMatrix (driverList ! 1)))"
proof -
  let ?n = "length val"
  let ?h = "length val div 2"
  let ?driver1 = "driverList ! 1"
  note s = ok [unfolded flux_input_ok_def]
  have n2: "2 * ?h = ?n" using ev by simp
  let ?U = "\<lambda>idim jdim driver \<sigma> \<tau>.
        kMatrix ! (3 * i + idim) ! (3 * j + jdim)
        * (coeff ! \<sigma> ! (3 * driver) + coeff ! \<sigma> ! (3 * driver + 1) + coeff ! \<sigma> ! (3 * driver + 2))
        * (coeff ! \<tau> ! (3 * driver) + coeff ! \<tau> ! (3 * driver + 1) + coeff ! \<tau> ! (3 * driver + 2))
        * vec ! (3 * i + idim) ! \<sigma>
        * vec ! (3 * j + jdim) ! \<tau>
        * regularized (val ! \<sigma> - val ! \<tau>) (val ! \<sigma> + val ! \<tau>)"
  let ?tau_body = "\<lambda>idim jdim driver sigma cosigma. (\<lambda>tau term.
                  ebind (getitem2 coeff tau (3 * driver)) (\<lambda>b0.
                  ebind (getitem2 coeff tau (3 * driver + 1)) (\<lambda>b1.
                  ebind (getitem2 coeff tau (3 * driver + 2)) (\<lambda>b2.
                  let cotau = b0 + b1 + b2 in
                  ebind (getitem2 kMatrix (3 * i + idim) (3 * j + jdim)) (\<lambda>kij.
                  ebind (getitem2 (take ?h vec) (3 * i + idim) sigma) (\<lambda>vi.
                  ebind (getitem2 (take ?h vec) (3 * j + jdim) tau) (\<lambda>vj.
                  case true_divide (val ! sigma - val ! tau) (val ! sigma + val ! tau) of
                    None \<Rightarrow> Inr (if fp_raise then term else None)
                  | Some q \<Rightarrow>
                      Inr (float_add term (Some (kij * (cosigma * cotau * vi * vj * q)))))))))))"
  let ?sigma_body = "\<lambda>idim jdim driver. (\<lambda>sigma term.
                ebind (getitem2 coeff sigma (3 * driver + 1)) (\<lambda>a1.
                ebind (getitem2 coeff sigma (3 * driver + 2)) (\<lambda>a2.
                ebind (getitem2 coeff sigma (3 * driver)) (\<lambda>a0.
                let cosigma = a1 + a2 + a0 in
                for_each [0..<?n] (?tau_body idim jdim driver sigma cosigma) term))))"
  let ?driver_body = "\<lambda>idim jdim. (\<lambda>driver kappa.
           ebind (for_each [0..<?n] (?sigma_body idim jdim driver) (Some 0))
             (\<lambda>term. Inr (float_add kappa term)))"
  have co: "getitem2 coeff x (3 * d) = Inr (coeff ! x ! (3 * d))"
    "getitem2 coeff x (3 * d + 1) = Inr (coeff ! x ! (3 * d + 1))"
    "getitem2 coeff x (3 * d + 2) = Inr (coeff ! x ! (3 * d + 2))"
    if "x < ?n" "d \<in> set ?driver1" for x d
  proof -
    have "3 * d + 2 < ncols coeff" using that s by (simp add: list_all_iff)
    moreover have "x < length coeff" "length (coeff ! x) = ncols coeff"
      using that s by (simp_all add: shaped_def list_all_length)
    ultimately show "getitem2 coeff x (3 * d) = Inr (coeff ! x ! (3 * d))"
      "getitem2 coeff x (3 * d + 1) = Inr (coeff ! x ! (3 * d + 1))"
      "getitem2 coeff x (3 * d + 2) = Inr (coeff ! x ! (3 * d + 2))"
      by (simp_all add: getitem2_def)
  qed
  have km: "getitem2 kMatrix (3 * i + idim) (3 * j + jdim) = Inr (kMatrix ! (3 * i + idim) ! (3 * j + jdim))"
    if "idim < dim'" "jdim < dim'" for idim jdim
    using that s by (auto simp: getitem2_def shaped_def list_all_length)
  have vi: "getitem2 (take ?h vec) (3 * i + idim) x = Inr (vec ! (3 * i + idim) ! x)"
    if "idim < dim'" "x < ?n" for idim x
    using that s half by (auto simp: getitem2_def shaped_def list_all_length)
  have vj: "getitem2 (take ?h vec) (3 * j + jdim) x = Inr (vec ! (3 * j + jdim) ! x)"
    if "jdim < dim'" "x < ?n" for jdim x
    using that s half by (auto simp: getitem2_def shaped_def list_all_length)
  have tau: "?tau_body idim jdim driver \<sigma>
        (coeff ! \<sigma> ! (3 * driver + 1) + coeff ! \<sigma> ! (3 * driver + 2) + coeff ! \<sigma> ! (3 * driver)) \<tau> (Some acc)
      = Inr (Some (acc + ?U idim jdim driver \<sigma> \<tau>))"
    if "idim < dim'" "jdim < dim'" "driver \<in> set ?driver1" "\<sigma> < ?n" "\<tau> < ?n"
    for idim jdim driver \<sigma> \<tau> acc
  proof -
    have "val ! \<sigma> + val ! \<tau> \<noteq> 0" using nz that by (intro sums_nonzeroD)
    then show ?thesis
      unfolding co [OF that(5,3)] km [OF that(1,2)] vi [OF that(1,4)] vj [OF that(2,5)]
        ebind_Inr Let_def
      by (simp add: true_divide_def regularized_def float_add_def algebra_simps)
  qed
  have sigma: "?sigma_body idim jdim driver \<sigma> (Some acc) = Inr (Some (acc + (\<Sum>\<tau>\<leftarrow>[0..<?n]. ?U idim jdim driver \<sigma> \<tau>)))"
    if "idim < dim'" "jdim < dim'" "driver \<in> set ?driver1" "\<sigma> < ?n" for idim jdim driver \<sigma> acc
  proof -
    let ?cosigma = "coeff ! \<sigma> ! (3 * driver + 1) + coeff ! \<sigma> ! (3 * driver + 2) + coeff ! \<sigma> ! (3 * driver)"
    have "?sigma_body idim jdim driver \<sigma> (Some acc) =
        for_each [0..<?n] (?tau_body idim jdim driver \<sigma> ?cosigma) (Some acc)"
      unfolding co [OF that(4,3)] ebind_Inr by (simp only: Let_def)
    also have "\<dots> = Inr (Some (acc + (\<Sum>\<tau>\<leftarrow>[0..<?n]. ?U idim jdim driver \<sigma> \<tau>)))"
    proof (rule for_each_add_some)
      fix \<tau> s assume "\<tau> \<in> set [0..<?n]"
      then have "\<tau> < ?n" by simp
      with that show "?tau_body idim jdim driver \<sigma> ?cosigma \<tau> (Some s) = Inr (Some (s + ?U idim jdim driver \<sigma> \<tau>))"
        by (intro tau)
    qed
    finally show ?thesis .
  qed
  have driver: "?driver_body idim jdim driver (Some acc) =
      Inr (Some (acc + (\<Sum>\<sigma>\<leftarrow>[0..<?n]. \<Sum>\<tau>\<leftarrow>[0..<?n]. ?U idim jdim driver \<sigma> \<tau>)))"
    if "idim < dim'" "jdim < dim'" "driver \<in> set ?driver1" for idim jdim driver acc
  proof -
    have "for_each [0..<?n] (?sigma_body idim jdim driver) (Some 0) =
        Inr (Some (0 + (\<Sum>\<sigma>\<leftarrow>[0..<?n]. \<Sum>\<tau>\<leftarrow>[0..<?n]. ?U idim jdim driver \<sigma> \<tau>)))"
    proof (rule for_each_add_some)
      fix \<sigma> s assume "\<sigma> \<in> set [0..<?n]"
      then have "\<sigma> < ?n" by simp
      with that show "?sigma_body idim jdim driver \<sigma> (Some s) =
          Inr (Some (s + (\<Sum>\<tau>\<leftarrow>[0..<?n]. ?U idim jdim driver \<sigma> \<tau>)))"
        by (intro sigma)
    qed
    then show ?thesis by (simp add: float_add_def)
  qed
  have jd: "for_each ?driver1 (?driver_body idim jdim) (Some acc) =
      Inr (Some (acc + (\<Sum>driver\<leftarrow>?driver1. \<Sum>\<sigma>\<leftarrow>[0..<?n]. \<Sum>\<tau>\<leftarrow>[0..<?n]. ?U idim jdim driver \<sigma> \<tau>)))"
    if "idim < dim'" "jdim < dim'" for idim jdim acc
  proof (rule for_each_add_some)
    fix d s assume "d \<in> set ?driver1"
    with that show "?driver_body idim jdim d (Some s) =
        Inr (Some (s + (\<Sum>\<sigma>\<leftarrow>[0..<?n]. \<Sum>\<tau>\<leftarrow>[0..<?n]. ?U idim jdim d \<sigma> \<tau>)))"
      by (intro driver)
  qed
  have idm: "for_each [0..<dim'] (\<lambda>jdim. for_each ?driver1 (?driver_body idim jdim)) (Some acc) =
      Inr (Some (acc + (\<Sum>jdim\<leftarrow>[0..<dim']. \<Sum>driver\<leftarrow>?driver1. \<Sum>\<sigma>\<leftarrow>[0..<?n]. \<Sum>\<tau>\<leftarrow>[0..<?n].
        ?U idim jdim driver \<sigma> \<tau>)))"
    if "idim < dim'" for idim acc
  proof (rule for_each_add_some)
    fix jdim s assume "jdim \<in> set [0..<dim']"
    then have "jdim < dim'" by simp
    with that show "for_each ?driver1 (?driver_body idim jdim) (Some s) =
        Inr (Some (s + (\<Sum>driver\<leftarrow>?driver1. \<Sum>\<sigma>\<leftarrow>[0..<?n]. \<Sum>\<tau>\<leftarrow>[0..<?n]. ?U idim jdim driver \<sigma> \<tau>)))"
      by (intro jd)
  qed
  have all: "for_each [0..<dim']
        (\<lambda>idim. for_each [0..<dim'] (\<lambda>jdim. for_each ?driver1 (?driver_body idim jdim))) (Some (0::'a)) =
      Inr (Some (0 + (\<Sum>idim\<leftarrow>[0..<dim']. \<Sum>jdim\<leftarrow>[0..<dim']. \<Sum>driver\<leftarrow>?driver1.
        \<Sum>\<sigma>\<leftarrow>[0..<?n]. \<Sum>\<tau>\<leftarrow>[0..<?n]. ?U idim jdim driver \<sigma> \<tau>)))"
  proof (rule for_each_add_some)
    fix idim s assume "idim \<in> set [0..<dim']"
    then have "idim < dim'" by simp
    then show "for_each [0..<dim'] (\<lambda>jdim. for_each ?driver1 (?driver_body idim jdim)) (Some s) =
        Inr (Some (s + (\<Sum>jdim\<leftarrow>[0..<dim']. \<Sum>driver\<leftarrow>?driver1. \<Sum>\<sigma>\<leftarrow>[0..<?n]. \<Sum>\<tau>\<leftarrow>[0..<?n].
          ?U idim jdim driver \<sigma> \<tau>)))"
      by (rule idm)
  qed
  have "calculate_power_loop fp_raise i j dim' val vec coeff kMatrix driverList =
      for_each [0..<dim']
        (\<lambda>idim. for_each [0..<dim'] (\<lambda>jdim. for_each ?driver1 (?driver_body idim jdim))) (Some 0)"
    using s by (simp add: calculate_power_loop_def getrow_def Let_def n2)
  then show ?thesis
    unfolding all flux_formula_def sum_list_upt by simp
qed

lemma symmetric_mD:
  "symmetric_m A \<Longrightarrow> r < length A \<Longrightarrow> c < length A \<Longrightarrow> A ! r ! c = A ! c ! r"
  by (simp add: symmetric_m_def list_all_length)

subsection \<open>The aggregation loop\<close>

lemma for_each_append:
  "for_each (xs @ ys) body s = ebind (for_each xs body s) (for_each ys body)"
  by (induction xs arbitrary: s) (simp_all split: sum.splits)

lemma for_each_accumulate:
  fixes f :: "'x \<Rightarrow> error + 'a::monoid_add"
  shows "for_each xs (\<lambda>x acc. ebind (f x) (\<lambda>p. Inr (acc + p))) s =
    ebind (for_each xs (\<lambda>x acc. ebind (f x) (\<lambda>p. Inr (acc + p))) 0) (\<lambda>t. Inr (s + t))"
proof (induction xs arbitrary: s)
  case Nil
  then show ?case by simp
next
  case (Cons x xs)
  let ?body = "\<lambda>x acc. ebind (f x) (\<lambda>p. Inr (acc + p))"
  show ?case
  proof (cases "f x")
    case (Inl e)
    then show ?thesis by simp
  next
    case (Inr p)
    have "for_each xs ?body (s + p) = ebind (for_each xs ?body 0) (\<lambda>t. Inr (s + p + t))"
      by (rule Cons.IH)
    moreover have "for_each xs ?body (0 + p) = ebind (for_each xs ?body 0) (\<lambda>t. Inr (0 + p + t))"
      by (rule Cons.IH)
    ultimately show ?thesis using Inr
      by (cases "for_each xs ?body 0") (simp_all add: add.assoc)
  qed
qed

lemma kappa_unfold:
  assumes "kappa_setup eig solve m k drivers gamma = Inr (dim', val, vec, coeff)"
  shows "kappa eig solve m k drivers crossings gamma =
    for_each crossings
      (\<lambda>c acc. ebind (calculate_power (fst c) (snd c) dim' val vec coeff k drivers)
         (\<lambda>p. Inr (acc + p))) 0"
  using assms by (simp add: kappa_def case_prod_unfold)

subsection \<open>Mismatched dimensions\<close>

lemma for_each_invariant:
  assumes "for_each xs body s = Inr s'" and "P s"
    and "\<And>x s s'. x \<in> set xs \<Longrightarrow> P s \<Longrightarrow> body x s = Inr s' \<Longrightarrow> P s'"
  shows "P s'"
  using assms
proof (induction xs arbitrary: s)
  case Nil
  then show ?case by simp
next
  case (Cons x xs)
  from Cons.prems(1) obtain t where t: "body x s = Inr t" "for_each xs body t = Inr s'"
    by (auto split: sum.splits)
  have pt: "P t"
    by (rule Cons.prems(3) [of x s t]) (use Cons.prems(2) t(1) in simp_all)
  show ?case
  proof (rule Cons.IH [OF t(2) pt])
    fix y u u' assume "y \<in> set xs" "P u" "body y u = Inr u'"
    then show "P u'" by (intro Cons.prems(3) [of y u u']) simp_all
  qed
qed

lemma setitem2_length: "setitem2 A r c v = Inr A' \<Longrightarrow> length A' = length A"
  by (auto simp: setitem2_def split: if_splits)

lemma calculate_gamma_mat_length:
  assumes "calculate_gamma_mat dim' N gamma drivers = Inr g"
  shows "length g = dim' * N"
proof -
  let ?inner = "\<lambda>driver. for_each [0..<dim']
           (\<lambda>i gmat. setitem2 gmat (3 * driver + i) (3 * driver + i) gamma)"
  from assms obtain ds where
    run: "for_each ds ?inner (zeros (dim' * N) (dim' * N)) = Inr g"
    by (cases "hstack drivers") (simp_all add: calculate_gamma_mat_def)
  have inner: "length s' = dim' * N" if "length s = dim' * N" "?inner d s = Inr s'" for d s s'
    using that(2) that(1)
    by (rule for_each_invariant [where P = "\<lambda>s. length s = dim' * N"])
      (simp add: setitem2_length)
  show ?thesis
    using run
    by (rule for_each_invariant [where P = "\<lambda>s. length s = dim' * N"])
      (simp_all add: zeros_def inner)
qed

lemma length_mass_matrix: "length (mass_matrix m dim') = dim' * length m"
  by (simp add: mass_matrix_def np_diag_def length_np_repeat)

lemma np_array_cases:
  "np_array xss = Inr xss \<or> np_array xss = Inl (ValueError InhomogeneousShape)"
  by (simp add: np_array_def)

lemma kappa_setup_empty:
  "kappa_setup eig solve [] k drivers gamma = Inl ZeroDivisionError"
  by (simp add: kappa_setup_def)

lemma kappa_setup_mismatch:
  assumes m: "m \<noteq> []" and nd: "\<not> length m dvd length k"
    and d: "np_array drivers = Inr drivers"
    and g: "calculate_gamma_mat (length k div length m) (length m) gamma drivers = Inr g"
  shows "kappa_setup eig solve m k drivers gamma = Inl (ValueError DimsMustMatch)"
proof -
  let ?d = "length k div length m"
  have "length g = ?d * length m" using g by (rule calculate_gamma_mat_length)
  moreover have "?d * length m \<noteq> length k" using nd by (metis dvd_triv_right)
  ultimately have "concatenate1 k g = Inl (ValueError DimsMustMatch)"
    by (simp add: concatenate1_def)
  then show ?thesis
    using m d g
    by (simp add: kappa_setup_def Let_def calculate_thermal_evec_def length_mass_matrix
        zeros_eq_mk_mat identity_def concatenate1_mk_mat)
qed

subsection \<open>The gamma matrix builder writes with the stride 3\<close>

text \<open>
  When no write is out of range, the builder returns the diagonal array with \<open>gamma\<close> at the
  positions \<open>3*d, ..., 3*d + dim - 1\<close> of every driven atom \<open>d\<close>, whatever the order and the
  repetitions of the driver indices. For \<open>dim = 3\<close> these are the degrees of freedom of the
  driven atoms.
\<close>

lemma setitem2_diag:
  assumes "p < n"
  shows "setitem2 (mk_mat n n (\<lambda>r c. if r = c \<and> r \<in> D then gamma else z)) p p gamma =
    Inr (mk_mat n n (\<lambda>r c. if r = c \<and> r \<in> insert p D then gamma else z))"
  using assms
  by (auto simp: setitem2_def mk_mat_def nth_list_update intro!: nth_equalityI)

lemma for_each_set_diag:
  assumes "\<forall>p\<in>set ps. p < n"
  shows "for_each ps (\<lambda>p gmat. setitem2 gmat p p gamma)
      (mk_mat n n (\<lambda>r c. if r = c \<and> r \<in> D then gamma else z)) =
    Inr (mk_mat n n (\<lambda>r c. if r = c \<and> r \<in> D \<union> set ps then gamma else z))"
  using assms
proof (induction ps arbitrary: D)
  case Nil
  then show ?case by simp
next
  case (Cons p ps)
  have p: "p < n" and ps: "\<forall>p\<in>set ps. p < n" using Cons.prems by simp_all
  have eq: "insert p D \<union> set ps = D \<union> set (p # ps)" by auto
  show ?case
    using Cons.IH [OF ps, of "insert p D"] by (simp add: setitem2_diag [OF p] eq)
qed

lemma for_each_map: "for_each (map f xs) body s = for_each xs (\<lambda>x. body (f x)) s"
  by (induction xs arbitrary: s) (simp_all split: sum.splits)

lemma calculate_gamma_mat_eq:
  fixes gamma :: "'a::zero"
  assumes ne: "drivers \<noteq> []"
    and rng: "\<forall>d\<in>set (concat drivers). 3 * d + dim' \<le> dim' * N"
  shows "calculate_gamma_mat dim' N gamma drivers =
    Inr (mk_mat (dim' * N) (dim' * N)
      (\<lambda>r c. if r = c \<and> (\<exists>d\<in>set (concat drivers). 3 * d \<le> r \<and> r < 3 * d + dim')
             then gamma else 0))"
proof -
  let ?n = "dim' * N"
  let ?G = "\<lambda>D. mk_mat ?n ?n (\<lambda>r c. if r = c \<and> r \<in> D then gamma else (0::'a))"
  let ?pos = "\<lambda>d. {r. 3 * d \<le> r \<and> r < 3 * d + dim'}"
  have inner: "for_each [0..<dim'] (\<lambda>i gmat. setitem2 gmat (3 * d + i) (3 * d + i) gamma) (?G D) =
      Inr (?G (D \<union> ?pos d))" if "3 * d + dim' \<le> ?n" for d D
  proof -
    have "for_each (map (\<lambda>i. 3 * d + i) [0..<dim']) (\<lambda>p gmat. setitem2 gmat p p gamma) (?G D) =
        Inr (?G (D \<union> set (map (\<lambda>i. 3 * d + i) [0..<dim'])))"
      using that by (intro for_each_set_diag) auto
    moreover have "set (map (\<lambda>i. 3 * d + i) [0..<dim']) = ?pos d"
    proof (intro set_eqI iffI)
      fix r assume "r \<in> ?pos d"
      then have "r = 3 * d + (r - 3 * d)" "r - 3 * d < dim'" by auto
      then show "r \<in> set (map (\<lambda>i. 3 * d + i) [0..<dim'])" by (metis atLeast0LessThan image_eqI lessThan_iff list.set_map set_upt)
    qed auto
    ultimately show ?thesis unfolding for_each_map by (simp only:)
  qed
  have outer: "for_each ds (\<lambda>driver. for_each [0..<dim']
        (\<lambda>i gmat. setitem2 gmat (3 * driver + i) (3 * driver + i) gamma)) (?G D) =
      Inr (?G (D \<union> (\<Union>d\<in>set ds. ?pos d)))"
    if "\<forall>d\<in>set ds. 3 * d + dim' \<le> ?n" for ds D
    using that
  proof (induction ds arbitrary: D)
    case Nil
    then show ?case by simp
  next
    case (Cons d ds)
    let ?body = "\<lambda>driver. for_each [0..<dim']
        (\<lambda>i gmat. setitem2 gmat (3 * driver + i) (3 * driver + i) gamma)"
    have d: "3 * d + dim' \<le> ?n" and ds: "\<forall>d\<in>set ds. 3 * d + dim' \<le> ?n"
      using Cons.prems by simp_all
    have e: "D \<union> ?pos d \<union> (\<Union>d\<in>set ds. ?pos d) = D \<union> (\<Union>d\<in>set (d # ds). ?pos d)"
      by auto
    have "for_each (d # ds) ?body (?G D) = for_each ds ?body (?G (D \<union> ?pos d))"
      by (simp only: for_each.simps inner [OF d] sum.case)
    also have "\<dots> = Inr (?G (D \<union> ?pos d \<union> (\<Union>d\<in>set ds. ?pos d)))"
      by (rule Cons.IH [OF ds])
    also have "\<dots> = Inr (?G (D \<union> (\<Union>d\<in>set (d # ds). ?pos d)))"
      by (simp only: e)
    finally show ?case .
  qed
  have z: "zeros ?n ?n = ?G {}" by (simp add: zeros_eq_mk_mat)
  have "calculate_gamma_mat dim' N gamma drivers =
      for_each (concat drivers) (\<lambda>driver. for_each [0..<dim']
        (\<lambda>i gmat. setitem2 gmat (3 * driver + i) (3 * driver + i) gamma)) (?G {})"
    unfolding calculate_gamma_mat_def Let_def z using ne by (simp only: hstack_def if_False ebind_Inr)
  also have "\<dots> = Inr (?G ({} \<union> (\<Union>d\<in>set (concat drivers). ?pos d)))"
    using rng by (rule outer)
  also have "?G ({} \<union> (\<Union>d\<in>set (concat drivers). ?pos d)) =
      mk_mat ?n ?n
      (\<lambda>r c. if r = c \<and> (\<exists>d\<in>set (concat drivers). 3 * d \<le> r \<and> r < 3 * d + dim')
             then gamma else 0)"
    by (intro mk_mat_cong) auto
  finally show ?thesis .
qed

lemma gamma_mat_dim3:
  fixes gamma :: "'a::zero"
  assumes "drivers \<noteq> []" and "\<forall>d\<in>set (concat drivers). d < N"
  shows "calculate_gamma_mat 3 N gamma drivers =
    Inr (mk_mat (3 * N) (3 * N)
      (\<lambda>r c. if r = c \<and> r div 3 \<in> set (concat drivers) then gamma else 0))"
proof -
  have "\<forall>d\<in>set (concat drivers). 3 * d + 3 \<le> 3 * N"
  proof
    fix d assume "d \<in> set (concat drivers)"
    then have "d < N" using assms(2) by blast
    then show "3 * d + 3 \<le> 3 * N" by simp
  qed
  then have "calculate_gamma_mat 3 N gamma drivers =
    Inr (mk_mat (3 * N) (3 * N)
      (\<lambda>r c. if r = c \<and> (\<exists>d\<in>set (concat drivers). 3 * d \<le> r \<and> r < 3 * d + 3)
             then gamma else 0))"
    using assms(1) by (intro calculate_gamma_mat_eq)
  moreover have "(\<exists>d\<in>set (concat drivers). 3 * d \<le> r \<and> r < 3 * d + 3) \<longleftrightarrow>
      r div 3 \<in> set (concat drivers)" for r
  proof
    assume "\<exists>d\<in>set (concat drivers). 3 * d \<le> r \<and> r < 3 * d + 3"
    then obtain d where d: "d \<in> set (concat drivers)" "3 * d \<le> r" "r < 3 * d + 3" by auto
    then have "r div 3 = d" by linarith
    then show "r div 3 \<in> set (concat drivers)" using d by simp
  next
    assume "r div 3 \<in> set (concat drivers)"
    moreover have "3 * (r div 3) \<le> r" "r < 3 * (r div 3) + 3" by linarith+
    ultimately show "\<exists>d\<in>set (concat drivers). 3 * d \<le> r \<and> r < 3 * d + 3" by blast
  qed
  ultimately show ?thesis by simp
qed

subsection \<open>The mass matrix\<close>

text \<open>
  C9. The mass matrix built from a mass vector \<open>m\<close> and a dimension \<open>dim\<close> is the square
  array of side \<open>dim * len(m)\<close> that is zero off the diagonal and carries, on the diagonal,
  every mass \<open>m[a]\<close> at the \<open>dim\<close> consecutive positions \<open>dim*a, ..., dim*a + dim - 1\<close>.
\<close>

theorem mass_matrix_diagonal:
  fixes m :: "'a::zero list"
  assumes "1 \<le> dim'"
  shows "length (mass_matrix m dim') = dim' * length m
    \<and> (\<forall>r < dim' * length m. length (mass_matrix m dim' ! r) = dim' * length m)
    \<and> (\<forall>r < dim' * length m. \<forall>c < dim' * length m. r \<noteq> c \<longrightarrow> mass_matrix m dim' ! r ! c = 0)
    \<and> (\<forall>a < length m. \<forall>t < dim'. mass_matrix m dim' ! (dim' * a + t) ! (dim' * a + t) = m ! a)"
proof -
  let ?n = "dim' * length m"
  have len: "length (np_repeat m dim') = ?n" by (rule length_np_repeat)
  have ent: "mass_matrix m dim' ! r ! c = (if r = c then m ! (r div dim') else 0)"
    if "r < ?n" "c < ?n" for r c
    using that by (simp add: mass_matrix_def np_diag_def len nth_np_repeat)
  have pos: "dim' * a + t < ?n" if "a < length m" "t < dim'" for a t
  proof -
    have "dim' * a + t < dim' * a + dim'" using that by simp
    also have "\<dots> = dim' * Suc a" by simp
    also have "\<dots> \<le> ?n" using that by (intro mult_le_mono2) simp
    finally show ?thesis .
  qed
  have "mass_matrix m dim' ! (dim' * a + t) ! (dim' * a + t) = m ! a"
    if "a < length m" "t < dim'" for a t
    using that pos [OF that] ent [of "dim' * a + t" "dim' * a + t"] by simp
  moreover have "length (mass_matrix m dim' ! r) = ?n" if "r < ?n" for r
    using that by (simp add: mass_matrix_def np_diag_def len)
  moreover have "length (mass_matrix m dim') = ?n"
    by (simp add: mass_matrix_def np_diag_def len)
  ultimately show ?thesis using ent by simp
qed

theorem mass_matrix_diagonal_witness:
  "(1::nat) \<le> 2 \<and> mass_matrix [5, 7 :: real] 2 = [[5, 0, 0, 0], [0, 5, 0, 0], [0, 0, 7, 0], [0, 0, 0, 7]]
   \<and> length (mass_matrix [5, 7 :: real] 2) = 2 * length [5, 7 :: real]"
  using mass_matrix_diagonal [of 2 "[5, 7 :: real]"]
  by (simp add: mass_matrix_def np_diag_def np_repeat_def mk_mat_def upt_conv_Cons
      eval_nat_numeral)

subsection \<open>The gamma matrix\<close>

text \<open>
  C1. The gamma matrix is to carry \<open>gamma\<close> at the diagonal positions \<open>dim*idx + c\<close> of
  every driven atom \<open>idx\<close> and zero elsewhere, for every \<open>dim\<close>. The builder takes \<open>dim\<close>,
  sizes the array with it and runs \<open>c\<close> over \<open>range(dim)\<close>, and indexes with the stride 3:
  for \<open>dim = 2\<close>, three atoms and the driven atoms 0 and 1 it writes \<open>gamma\<close> at the
  positions 0, 1, 3 and 4 of the diagonal, where the driven degrees of freedom are 0, 1,
  2 and 3. (For \<open>dim = 3\<close> it does what the claim says: \<open>gamma_mat_dim3\<close>.)
\<close>

theorem gamma_mat_stride_dim2:
  "calculate_gamma_mat 2 3 (10::real) [[0], [1]] =
     Inr [[10, 0, 0, 0, 0, 0],
          [0, 10, 0, 0, 0, 0],
          [0, 0, 0, 0, 0, 0],
          [0, 0, 0, 10, 0, 0],
          [0, 0, 0, 0, 10, 0],
          [0, 0, 0, 0, 0, 0]]"
  by (simp add: calculate_gamma_mat_def hstack_def zeros_def setitem2_def upt_conv_Cons
      eval_nat_numeral)


subsection \<open>The regularized mode-pair kernel\<close>

text \<open>
  C3. The computation of \<open>valterm\<close> never raises. The entry for the eigenvalue indices
  \<open>(\<sigma>, \<tau>)\<close> (row \<open>\<tau>\<close>, column \<open>\<sigma>\<close>) is \<open>(val[\<sigma>] - val[\<tau>]) / (val[\<sigma>] + val[\<tau>])\<close>,
  and it is zero where the denominator is zero, so that whatever multiplies it there
  contributes zero to the flux sum.
\<close>

theorem valterm_regularized:
  fixes val :: "'a::field list"
  defines "n \<equiv> length val"
  shows "\<exists>valterm. calculate_valterm val = Inr valterm
     \<and> length valterm = n \<and> (\<forall>\<tau><n. length (valterm ! \<tau>) = n)
     \<and> (\<forall>\<sigma><n. \<forall>\<tau><n. valterm ! \<tau> ! \<sigma> =
           (if val ! \<sigma> + val ! \<tau> = 0 then 0
            else (val ! \<sigma> - val ! \<tau>) / (val ! \<sigma> + val ! \<tau>)))
     \<and> (\<forall>\<sigma><n. \<forall>\<tau><n. val ! \<sigma> + val ! \<tau> = 0 \<longrightarrow> (\<forall>x. x * valterm ! \<tau> ! \<sigma> = 0))"
proof -
  let ?f = "\<lambda>\<tau> \<sigma>. regularized (val ! \<sigma> - val ! \<tau>) (val ! \<sigma> + val ! \<tau>)"
  have "calculate_valterm val = Inr (mk_mat n n ?f)"
    unfolding n_def by (rule calculate_valterm_eq)
  moreover have ent: "mk_mat n n ?f ! \<tau> ! \<sigma> =
      (if val ! \<sigma> + val ! \<tau> = 0 then 0 else (val ! \<sigma> - val ! \<tau>) / (val ! \<sigma> + val ! \<tau>))"
    if "\<sigma> < n" "\<tau> < n" for \<sigma> \<tau>
    using that by (simp add: regularized_def)
  moreover have "x * mk_mat n n ?f ! \<tau> ! \<sigma> = 0"
    if "\<sigma> < n" "\<tau> < n" "val ! \<sigma> + val ! \<tau> = 0" for \<sigma> \<tau> x
    using that ent [of \<sigma> \<tau>] by simp
  moreover have "length (mk_mat n n ?f) = n" "\<forall>\<tau><n. length (mk_mat n n ?f ! \<tau>) = n"
    by simp_all
  ultimately show ?thesis by blast
qed

theorem valterm_regularized_witness:
  "\<exists>valterm. calculate_valterm [1, 2, - 1 :: real] = Inr valterm
     \<and> valterm = [[0, 1 / 3, 0], [- (1 / 3), 0, - 3], [0, 3, 0]]
     \<and> (\<forall>x. x * valterm ! 2 ! 0 = 0)"
proof -
  have "calculate_valterm [1, 2, - 1 :: real] = Inr [[0, 1 / 3, 0], [- (1 / 3), 0, - 3], [0, 3, 0]]"
    by code_simp
  then show ?thesis
    using valterm_regularized [of "[1, 2, - 1 :: real]"] by simp
qed

subsection \<open>The per-crossing flux\<close>

text \<open>
  C4. For \<open>dim = 3\<close> the flux of the bond \<open>(i, j)\<close> is the sum, over the component pairs
  \<open>(idim, jdim)\<close>, the atoms of the second driver group and the mode pairs \<open>(\<sigma>, \<tau>)\<close>, of
  \<open>kMatrix[3i+idim, 3j+jdim]\<close> times the two coefficient sums of the driven atom times
  \<open>vec[3i+idim, \<sigma>]\<close> times \<open>vec[3j+jdim, \<tau>]\<close> times the regularized quotient of
  \<open>(\<sigma>, \<tau>)\<close>. The first driver group \<open>driver0\<close> does not occur in the result.
\<close>

theorem flux_dim3:
  fixes val :: "'a::field list"
  assumes "flux_input_ok i j 3 val vec coeff kMatrix (driver0 # driver1 # others)"
  shows "calculate_power i j 3 val vec coeff kMatrix (driver0 # driver1 # others) =
    Inr (\<Sum>idim<3. \<Sum>jdim<3. \<Sum>driver\<leftarrow>driver1. \<Sum>\<sigma><length val. \<Sum>\<tau><length val.
        kMatrix ! (3 * i + idim) ! (3 * j + jdim)
        * (coeff ! \<sigma> ! (3 * driver) + coeff ! \<sigma> ! (3 * driver + 1) + coeff ! \<sigma> ! (3 * driver + 2))
        * (coeff ! \<tau> ! (3 * driver) + coeff ! \<tau> ! (3 * driver + 1) + coeff ! \<tau> ! (3 * driver + 2))
        * vec ! (3 * i + idim) ! \<sigma>
        * vec ! (3 * j + jdim) ! \<tau>
        * (if val ! \<sigma> + val ! \<tau> = 0 then 0
           else (val ! \<sigma> - val ! \<tau>) / (val ! \<sigma> + val ! \<tau>)))"
  using calculate_power_flux_formula [OF assms]
  by (simp add: flux_formula_def regularized_def)

theorem flux_dim3_witness:
  "flux_input_ok 0 0 3 [1, 2, 3, 4, 5, 6 :: real]
     [[0, 1, 2, 3, 4, 5], [1, 2, 3, 4, 5, 6], [2, 3, 4, 5, 6, 7],
      [3, 4, 5, 6, 7, 8], [4, 5, 6, 7, 8, 9], [5, 6, 7, 8, 9, 10]]
     [[0, 0, 0], [0, 1, 2], [0, 2, 4], [0, 3, 6], [0, 4, 8], [0, 5, 10]]
     [[1, 2, 3], [4, 5, 6], [7, 8, 9]] [[0], [0]]
   \<and> calculate_power 0 0 3 [1, 2, 3, 4, 5, 6 :: real]
     [[0, 1, 2, 3, 4, 5], [1, 2, 3, 4, 5, 6], [2, 3, 4, 5, 6, 7],
      [3, 4, 5, 6, 7, 8], [4, 5, 6, 7, 8, 9], [5, 6, 7, 8, 9, 10]]
     [[0, 0, 0], [0, 1, 2], [0, 2, 4], [0, 3, 6], [0, 4, 8], [0, 5, 10]]
     [[1, 2, 3], [4, 5, 6], [7, 8, 9]] [[0], [0]] = Inr (- (246816 / 55))"
proof -
  let ?val = "[1, 2, 3, 4, 5, 6 :: real]"
  let ?vec = "[[0, 1, 2, 3, 4, 5], [1, 2, 3, 4, 5, 6], [2, 3, 4, 5, 6, 7],
      [3, 4, 5, 6, 7, 8], [4, 5, 6, 7, 8, 9], [5, 6, 7, 8, 9, 10 :: real]]"
  let ?coeff = "[[0, 0, 0], [0, 1, 2], [0, 2, 4], [0, 3, 6], [0, 4, 8], [0, 5, 10 :: real]]"
  let ?k = "[[1, 2, 3], [4, 5, 6], [7, 8, 9 :: real]]"
  have ok: "flux_input_ok 0 0 3 ?val ?vec ?coeff ?k [[0], [0]]"
    by code_simp
  have v: "calculate_power 0 0 3 ?val ?vec ?coeff ?k [[0], [0]] = Inr (- (246816 / 55))"
    by code_simp
  from flux_dim3 [OF ok] ok v show ?thesis by blast
qed

text \<open>
  C5. On a symmetric \<open>kMatrix\<close>, the flux of the bond \<open>(j, i)\<close> is the negation of the flux
  of the bond \<open>(i, j)\<close>.
\<close>

theorem flux_antisymmetric:
  fixes val :: "'a::field list"
  assumes ok: "flux_input_ok i j dim' val vec coeff kMatrix driverList"
    and sym: "symmetric_m kMatrix"
  shows "\<exists>power. calculate_power i j dim' val vec coeff kMatrix driverList = Inr power
    \<and> calculate_power j i dim' val vec coeff kMatrix driverList = Inr (- power)"
proof -
  have "3 * i + dim' \<le> length kMatrix" "3 * j + dim' \<le> length kMatrix"
    using ok by (simp_all add: flux_input_ok_def)
  moreover have "\<forall>r<length kMatrix. \<forall>c<length kMatrix. kMatrix ! r ! c = kMatrix ! c ! r"
    using sym by (simp add: symmetric_mD)
  ultimately have "flux_formula j i dim' val vec coeff kMatrix (driverList ! 1) =
      - flux_formula i j dim' val vec coeff kMatrix (driverList ! 1)"
    by (intro flux_formula_swap)
  then show ?thesis
    using calculate_power_flux_formula [OF ok]
      calculate_power_flux_formula [OF flux_input_ok_swap [OF ok]] by simp
qed

theorem flux_antisymmetric_witness:
  "calculate_power 0 1 1 [1, 2, 3, 5 :: real]
     [[1, 2, 0, 1], [0, 1, 1, 0], [2, 0, 1, 1], [1, 1, 0, 2]]
     [[1, 0, 0], [0, 1, 0], [0, 0, 1], [1, 1, 1]]
     [[2, 0, 0, 5], [0, 1, 0, 0], [0, 0, 1, 0], [5, 0, 0, 3]] [[0], [0]] = Inr (- (580 / 21))
   \<and> calculate_power 1 0 1 [1, 2, 3, 5 :: real]
     [[1, 2, 0, 1], [0, 1, 1, 0], [2, 0, 1, 1], [1, 1, 0, 2]]
     [[1, 0, 0], [0, 1, 0], [0, 0, 1], [1, 1, 1]]
     [[2, 0, 0, 5], [0, 1, 0, 0], [0, 0, 1, 0], [5, 0, 0, 3]] [[0], [0]] = Inr (580 / 21)"
proof -
  let ?val = "[1, 2, 3, 5 :: real]"
  let ?vec = "[[1, 2, 0, 1], [0, 1, 1, 0], [2, 0, 1, 1], [1, 1, 0, 2 :: real]]"
  let ?coeff = "[[1, 0, 0], [0, 1, 0], [0, 0, 1], [1, 1, 1 :: real]]"
  let ?k = "[[2, 0, 0, 5], [0, 1, 0, 0], [0, 0, 1, 0], [5, 0, 0, 3 :: real]]"
  have ok: "flux_input_ok 0 1 1 ?val ?vec ?coeff ?k [[0], [0]]"
    by code_simp
  have sym: "symmetric_m ?k"
    by code_simp
  have v: "calculate_power 0 1 1 ?val ?vec ?coeff ?k [[0], [0]] = Inr (- (580 / 21))"
    by code_simp
  from flux_antisymmetric [OF ok sym] v show ?thesis by auto
qed

subsection \<open>The loop implementation and the vectorized one\<close>

text \<open>
  C10. For \<open>dim = 3\<close>, on an input where \<open>val\<close> has even length \<open>2n\<close>, the rows read lie in
  the displacement block \<open>vec[:n]\<close> and no pair of eigenvalues sums to zero, the nested
  loops of \<open>_calculate_power_loop\<close> and the array code of \<open>_calculate_power\<close> return
  the same value (whatever numpy's floating-point error state is).
\<close>

theorem power_loop_agrees:
  fixes val :: "'a::field list"
  assumes ok: "flux_input_ok i j 3 val vec coeff kMatrix driverList"
    and ev: "even (length val)"
    and half: "3 * i + 3 \<le> length val div 2" "3 * j + 3 \<le> length val div 2"
    and nz: "sums_nonzero val"
  shows "\<exists>power. calculate_power_loop fp_raise i j 3 val vec coeff kMatrix driverList = Inr (Some power)
    \<and> calculate_power i j 3 val vec coeff kMatrix driverList = Inr power"
  using calculate_power_loop_flux_formula [OF ok ev half nz]
    calculate_power_flux_formula [OF ok] by simp

theorem power_loop_agrees_witness:
  "calculate_power_loop False 0 0 3 [1, 2, 3, 4, 5, 6 :: real]
     [[0, 1, 2, 3, 4, 5], [1, 2, 3, 4, 5, 6], [2, 3, 4, 5, 6, 7],
      [3, 4, 5, 6, 7, 8], [4, 5, 6, 7, 8, 9], [5, 6, 7, 8, 9, 10]]
     [[0, 0, 0], [0, 1, 2], [0, 2, 4], [0, 3, 6], [0, 4, 8], [0, 5, 10]]
     [[1, 2, 3], [4, 5, 6], [7, 8, 9]] [[0], [0]] = Inr (Some (- (246816 / 55)))
   \<and> calculate_power 0 0 3 [1, 2, 3, 4, 5, 6 :: real]
     [[0, 1, 2, 3, 4, 5], [1, 2, 3, 4, 5, 6], [2, 3, 4, 5, 6, 7],
      [3, 4, 5, 6, 7, 8], [4, 5, 6, 7, 8, 9], [5, 6, 7, 8, 9, 10]]
     [[0, 0, 0], [0, 1, 2], [0, 2, 4], [0, 3, 6], [0, 4, 8], [0, 5, 10]]
     [[1, 2, 3], [4, 5, 6], [7, 8, 9]] [[0], [0]] = Inr (- (246816 / 55))"
proof -
  let ?val = "[1, 2, 3, 4, 5, 6 :: real]"
  let ?vec = "[[0, 1, 2, 3, 4, 5], [1, 2, 3, 4, 5, 6], [2, 3, 4, 5, 6, 7],
      [3, 4, 5, 6, 7, 8], [4, 5, 6, 7, 8, 9], [5, 6, 7, 8, 9, 10 :: real]]"
  let ?coeff = "[[0, 0, 0], [0, 1, 2], [0, 2, 4], [0, 3, 6], [0, 4, 8], [0, 5, 10 :: real]]"
  let ?k = "[[1, 2, 3], [4, 5, 6], [7, 8, 9 :: real]]"
  have ok: "flux_input_ok 0 0 3 ?val ?vec ?coeff ?k [[0], [0]]"
    by code_simp
  have ev: "even (length ?val)" by simp
  have half: "3 * 0 + 3 \<le> length ?val div 2" by simp
  have nz: "sums_nonzero ?val" by code_simp
  have v: "calculate_power_loop False 0 0 3 ?val ?vec ?coeff ?k [[0], [0]] = Inr (Some (- (246816 / 55)))"
    by code_simp
  from power_loop_agrees [OF ok ev half half nz, of False] v show ?thesis by auto
qed

subsection \<open>The conductivity\<close>

text \<open>
  C8. Once the matrices, the eigenpairs and the coefficients are computed, the value that
  \<open>kappa\<close> returns is the sum of the per-crossing fluxes over the crossings in order, with
  no normalization: it is 0 for no crossing, and the value for two lists of crossings one
  after the other is the sum of the values for each.
\<close>

theorem kappa_sum_of_fluxes:
  fixes m :: "'a::field list"
  assumes st: "kappa_setup eig solve m k drivers gamma = Inr (dim', val, vec, coeff)"
  shows "kappa eig solve m k drivers [] gamma = Inr 0
    \<and> ((\<forall>c\<in>set crossings.
           calculate_power (fst c) (snd c) dim' val vec coeff k drivers = Inr (flux c))
        \<longrightarrow> kappa eig solve m k drivers crossings gamma = Inr (\<Sum>c\<leftarrow>crossings. flux c))
    \<and> (\<forall>a b. kappa eig solve m k drivers cs1 gamma = Inr a
          \<and> kappa eig solve m k drivers cs2 gamma = Inr b
        \<longrightarrow> kappa eig solve m k drivers (cs1 @ cs2) gamma = Inr (a + b))"
proof (intro conjI impI allI)
  let ?body = "\<lambda>c acc. ebind (calculate_power (fst c) (snd c) dim' val vec coeff k drivers)
         (\<lambda>p. Inr (acc + p))"
  show "kappa eig solve m k drivers [] gamma = Inr 0"
    by (simp add: kappa_unfold [OF st])
  show "kappa eig solve m k drivers crossings gamma = Inr (\<Sum>c\<leftarrow>crossings. flux c)"
    if "\<forall>c\<in>set crossings.
           calculate_power (fst c) (snd c) dim' val vec coeff k drivers = Inr (flux c)"
  proof -
    have "for_each crossings ?body 0 = Inr (0 + (\<Sum>c\<leftarrow>crossings. flux c))"
      using that by (intro for_each_add) simp
    then show ?thesis by (simp add: kappa_unfold [OF st])
  qed
  show "kappa eig solve m k drivers (cs1 @ cs2) gamma = Inr (a + b)"
    if "kappa eig solve m k drivers cs1 gamma = Inr a
          \<and> kappa eig solve m k drivers cs2 gamma = Inr b" for a b
  proof -
    have a: "for_each cs1 ?body 0 = Inr a" and b: "for_each cs2 ?body 0 = Inr b"
      using that by (simp_all add: kappa_unfold [OF st])
    have "for_each (cs1 @ cs2) ?body 0 = for_each cs2 ?body a"
      by (simp add: for_each_append a)
    also have "\<dots> = Inr (a + b)"
      by (subst for_each_accumulate) (simp add: b)
    finally show ?thesis by (simp add: kappa_unfold [OF st])
  qed
qed


theorem kappa_sum_of_fluxes_witness:
  "kappa
     (\<lambda>c z. Inr ([1, 2, 3, 4, 5, 6],
        [[0, 1, 2, 3, 4, 5], [1, 2, 3, 4, 5, 6], [2, 3, 4, 5, 6, 7],
         [3, 4, 5, 6, 7, 8], [4, 5, 6, 7, 8, 9], [5, 6, 7, 8, 9, 10]]))
     (\<lambda>A B. Inr [[0, 0, 0], [0, 1, 2], [0, 2, 4], [0, 3, 6], [0, 4, 8], [0, 5, 10]])
     [1 :: real] [[1, 2, 3], [4, 5, 6], [7, 8, 9]] [[0], [0]] [] 10 = Inr 0
   \<and> kappa
     (\<lambda>c z. Inr ([1, 2, 3, 4, 5, 6],
        [[0, 1, 2, 3, 4, 5], [1, 2, 3, 4, 5, 6], [2, 3, 4, 5, 6, 7],
         [3, 4, 5, 6, 7, 8], [4, 5, 6, 7, 8, 9], [5, 6, 7, 8, 9, 10]]))
     (\<lambda>A B. Inr [[0, 0, 0], [0, 1, 2], [0, 2, 4], [0, 3, 6], [0, 4, 8], [0, 5, 10]])
     [1 :: real] [[1, 2, 3], [4, 5, 6], [7, 8, 9]] [[0], [0]] [(0, 0), (0, 0)] 10
       = Inr (- (246816 / 55) + - (246816 / 55))"
proof -
  let ?eig = "\<lambda>(c :: real matrix) (z :: real matrix). Inr ([1, 2, 3, 4, 5, 6 :: real],
        [[0, 1, 2, 3, 4, 5], [1, 2, 3, 4, 5, 6], [2, 3, 4, 5, 6, 7],
         [3, 4, 5, 6, 7, 8], [4, 5, 6, 7, 8, 9], [5, 6, 7, 8, 9, 10 :: real]]) :: error + real list \<times> real matrix"
  let ?solve = "\<lambda>(A :: real matrix) (B :: real matrix).
    Inr [[0, 0, 0], [0, 1, 2], [0, 2, 4], [0, 3, 6], [0, 4, 8], [0, 5, 10 :: real]] :: error + real matrix"
  let ?k = "[[1, 2, 3], [4, 5, 6], [7, 8, 9 :: real]]"
  have st: "kappa_setup ?eig ?solve [1] ?k [[0], [0]] 10 =
      Inr (3, [1, 2, 3, 4, 5, 6],
        [[0, 1, 2, 3, 4, 5], [1, 2, 3, 4, 5, 6], [2, 3, 4, 5, 6, 7],
         [3, 4, 5, 6, 7, 8], [4, 5, 6, 7, 8, 9], [5, 6, 7, 8, 9, 10]],
        [[0, 0, 0], [0, 1, 2], [0, 2, 4], [0, 3, 6], [0, 4, 8], [0, 5, 10]])"
    by code_simp
  have one: "kappa ?eig ?solve [1] ?k [[0], [0]] [(0, 0)] 10 = Inr (- (246816 / 55))"
    by code_simp
  from kappa_sum_of_fluxes [OF st, of "[]" "\<lambda>c. 0" "[(0, 0)]" "[(0, 0)]"] one
  show ?thesis by simp
qed

subsection \<open>The generalized eigenproblem\<close>

text \<open>
  C7. For \<open>K\<close>, \<open>G\<close> and \<open>M\<close> of size \<open>N \<times> N\<close> the eigensolver passes to the library routine
  the left matrix \<open>[[0, I], [K, G]]\<close> and the right matrix \<open>[[I, 0], [0, -M]]\<close>, each
  \<open>2N \<times> 2N\<close>, and returns what the routine returns for the generalized problem
  \<open>left v = \<lambda> right v\<close> (its eigenvalues and right eigenvectors, or its exception).
\<close>

theorem thermal_evec_blocks:
  fixes K :: "'a::{zero,one,uminus} matrix"
  assumes K: "shaped N N K" and G: "shaped N N G" and M: "shaped N N M"
  shows "calculate_thermal_evec eig K G M =
     eig (block2x2 N (zeros N N) (identity N) K G)
         (block2x2 N (identity N) (zeros N N) (zeros N N) (negate M))
    \<and> shaped (2 * N) (2 * N) (block2x2 N (zeros N N) (identity N) K G)
    \<and> shaped (2 * N) (2 * N) (block2x2 N (identity N) (zeros N N) (zeros N N) (negate M))"
proof -
  have len: "length M = N" using M by (simp add: shaped_def)
  have Ke: "K = mk_mat N N (\<lambda>r c. K ! r ! c)" using K by (rule shaped_eq_mk_mat)
  have Ge: "G = mk_mat N N (\<lambda>r c. G ! r ! c)" using G by (rule shaped_eq_mk_mat)
  have Me: "M = mk_mat N N (\<lambda>r c. M ! r ! c)" using M by (rule shaped_eq_mk_mat)
  have b: "concatenate1 K G =
      Inr (mk_mat N (N + N) (\<lambda>r c. if c < N then K ! r ! c else G ! r ! (c - N)))"
    by (subst Ke, subst Ge) (rule concatenate1_mk_mat)
  have y: "concatenate1 (zeros N N) (negate M) =
      Inr (mk_mat N (N + N) (\<lambda>r c. if c < N then 0 else - M ! r ! (c - N)))"
    by (subst Me) (simp add: zeros_eq_mk_mat negate_mk_mat concatenate1_mk_mat)
  have left: "mk_mat (N + N) (N + N)
       (\<lambda>r c. if r < N then if c < N then 0 else if r = c - N then 1 else 0
              else if c < N then K ! (r - N) ! c else G ! (r - N) ! (c - N)) =
     block2x2 N (zeros N N) (identity N) K G"
    unfolding block2x2_def mult_2
    by (rule mk_mat_cong) (auto simp: zeros_eq_mk_mat identity_def)
  have right: "mk_mat (N + N) (N + N)
       (\<lambda>r c. if r < N then if c < N then if r = c then 1 else 0 else 0
              else if c < N then 0 else - M ! (r - N) ! (c - N)) =
     block2x2 N (identity N) (zeros N N) (zeros N N) (negate M)"
    unfolding block2x2_def mult_2
    by (rule mk_mat_cong) (auto simp: zeros_eq_mk_mat identity_def negate_nth [OF M])
  have "calculate_thermal_evec eig K G M =
     eig (block2x2 N (zeros N N) (identity N) K G)
         (block2x2 N (identity N) (zeros N N) (zeros N N) (negate M))"
    unfolding calculate_thermal_evec_def len Let_def b y
    by (simp add: zeros_eq_mk_mat identity_def concatenate1_mk_mat concatenate0_mk_mat
        left right)
  then show ?thesis by (simp add: block2x2_def)
qed


theorem thermal_evec_blocks_witness:
  "calculate_thermal_evec (\<lambda>c z. Inr (c, z))
      [[1, 2], [3, 4 :: real]] [[5, 0], [0, 6]] [[7, 0], [0, 8]] =
     Inr ([[0, 0, 1, 0], [0, 0, 0, 1], [1, 2, 5, 0], [3, 4, 0, 6]],
          [[1, 0, 0, 0], [0, 1, 0, 0], [0, 0, - 7, 0], [0, 0, 0, - 8]])"
proof -
  have s: "shaped 2 2 [[1, 2], [3, 4 :: real]]" "shaped 2 2 [[5, 0], [0, 6 :: real]]"
    "shaped 2 2 [[7, 0], [0, 8 :: real]]"
    by (simp_all add: shaped_def)
  have l: "block2x2 2 (zeros 2 2) (identity 2) [[1, 2], [3, 4 :: real]] [[5, 0], [0, 6]] =
      [[0, 0, 1, 0], [0, 0, 0, 1], [1, 2, 5, 0], [3, 4, 0, 6]]"
    by code_simp
  have r: "block2x2 2 (identity 2) (zeros 2 2) (zeros 2 2) (negate [[7, 0], [0, 8 :: real]]) =
      [[1, 0, 0, 0], [0, 1, 0, 0], [0, 0, - 7, 0], [0, 0, 0, - 8]]"
    by code_simp
  from thermal_evec_blocks [OF s, of "\<lambda>c z. Inr (c, z)"] show ?thesis
    by (simp only: l r)
qed

subsection \<open>The linear system of the coefficient solver\<close>

text \<open>
  C6. With \<open>N = len(vec)//2\<close>, the coefficient solver passes to the library routine the
  \<open>2N \<times> 2N\<close> array \<open>A\<close> whose top \<open>N\<close> rows are \<open>vec[:N,:]\<close> and whose bottom \<open>N\<close> rows are
  those rows multiplied entry by entry by \<open>M lamda + G ones\<close>, where every row of \<open>lamda\<close> is
  \<open>val\<close> (for diagonal \<open>M\<close> and \<open>G\<close>: the mass of the row times the eigenvalue of the column,
  plus the damping of the row), and the array \<open>B\<close> of \<open>N\<close> zero rows over the \<open>N \<times> N\<close>
  identity. It returns what the routine returns: the solution, or its exception.
\<close>

theorem coeff_system:
  fixes val :: "'a::field list"
  assumes val: "length val = 2 * N"
    and vec: "shaped (2 * N) (2 * N) vec"
    and mass: "shaped N N massMat"
    and g: "shaped N N gMat"
  shows "let A = mk_mat (2 * N) (2 * N)
          (\<lambda>r c. if r < N then vec ! r ! c
                 else vec ! (r - N) ! c *
                   ((\<Sum>k<N. massMat ! (r - N) ! k * val ! c) + (\<Sum>k<N. gMat ! (r - N) ! k)));
        B = mk_mat (2 * N) N (\<lambda>r c. if r < N then 0 else if r - N = c then 1 else 0)
    in calculate_coeff solve val vec massMat gMat = solve A B
       \<and> (massMat = np_diag mass \<and> gMat = np_diag damp \<longrightarrow>
            (\<forall>r<N. \<forall>c<2 * N. A ! (N + r) ! c = vec ! r ! c * (mass ! r * val ! c + damp ! r)))"
proof (cases "N = 0")
  case True
  then have "vec = []" "val = []" "massMat = []" "gMat = []"
    using vec val mass g by (simp_all add: shaped_def)
  then show ?thesis using True
    by (simp add: Let_def calculate_coeff_def broadcast_to_def ncols_def mk_mat_no_rows zeros_def
        np_dot_def tile_def ones_def broadcast2_def concatenate0_def identity_def)
next
  case False
  then have N: "0 < N" by simp
  have lv: "length vec = 2 * N" using vec by (simp add: shaped_def)
  have half: "length vec div 2 = N" using lv by simp
  have ve: "vec = mk_mat (2 * N) (2 * N) (\<lambda>r c. vec ! r ! c)" using vec by (rule shaped_eq_mk_mat)
  have Me: "massMat = mk_mat N N (\<lambda>r c. massMat ! r ! c)" using mass by (rule shaped_eq_mk_mat)
  have Ge: "gMat = mk_mat N N (\<lambda>r c. gMat ! r ! c)" using g by (rule shaped_eq_mk_mat)
  have upper: "broadcast_to (take N vec) N (2 * N) = Inr (mk_mat N (2 * N) (\<lambda>r c. vec ! r ! c))"
    by (subst ve) (simp add: take_mk_mat broadcast_to_mk_mat N)
  have lamda: "tile val N = mk_mat N (2 * N) (\<lambda>r c. val ! c)"
    by (simp add: tile_eq_mk_mat val)
  have ml: "np_dot massMat (mk_mat N (2 * N) (\<lambda>r c. val ! c)) =
      Inr (mk_mat N (2 * N) (\<lambda>r c. \<Sum>k<N. massMat ! r ! k * val ! c))"
    by (subst Me) (simp add: np_dot_mk_mat N)
  have go: "np_dot gMat (ones N (2 * N)) =
      Inr (mk_mat N (2 * N) (\<lambda>r c. \<Sum>k<N. gMat ! r ! k))"
    by (subst Ge) (simp add: ones_eq_mk_mat np_dot_mk_mat N)
  have A: "mk_mat N (2 * N) (\<lambda>r c. vec ! r ! c) @
      mk_mat N (2 * N) (\<lambda>r c. vec ! r ! c *
         ((\<Sum>k<N. massMat ! r ! k * val ! c) + (\<Sum>k<N. gMat ! r ! k))) =
     mk_mat (2 * N) (2 * N)
          (\<lambda>r c. if r < N then vec ! r ! c
                 else vec ! (r - N) ! c *
                   ((\<Sum>k<N. massMat ! (r - N) ! k * val ! c) + (\<Sum>k<N. gMat ! (r - N) ! k)))"
    by (simp add: mk_mat_append mult_2)
  have B: "concatenate0 (zeros N N) (identity N) =
      Inr (mk_mat (2 * N) N (\<lambda>r c. if r < N then 0 else if r - N = c then 1 else 0))"
    by (simp add: zeros_eq_mk_mat identity_def concatenate0_mk_mat mult_2)
  have main: "calculate_coeff solve val vec massMat gMat =
     solve
       (mk_mat (2 * N) (2 * N)
          (\<lambda>r c. if r < N then vec ! r ! c
                 else vec ! (r - N) ! c *
                   ((\<Sum>k<N. massMat ! (r - N) ! k * val ! c) + (\<Sum>k<N. gMat ! (r - N) ! k))))
       (mk_mat (2 * N) N (\<lambda>r c. if r < N then 0 else if r - N = c then 1 else 0))"
    unfolding calculate_coeff_def half Let_def upper ebind_Inr lamda ml go
    by (simp add: zeros_eq_mk_mat broadcast2_mk_mat broadcast_to_mk_mat N take_mk_mat A
        B [unfolded zeros_eq_mk_mat])
  have diag: "(\<Sum>k<N. np_diag v ! r ! k * x) = v ! r * x" if "r < N" "length v = N" for v :: "'a list" and r x
  proof -
    have "(\<Sum>k<N. np_diag v ! r ! k * x) = (\<Sum>k<N. if r = k then v ! r * x else 0)"
      using that by (intro sum.cong refl) (simp add: np_diag_def)
    also have "\<dots> = v ! r * x" using that by simp
    finally show ?thesis .
  qed
  have "mk_mat (2 * N) (2 * N)
          (\<lambda>r c. if r < N then vec ! r ! c
                 else vec ! (r - N) ! c *
                   ((\<Sum>k<N. massMat ! (r - N) ! k * val ! c) + (\<Sum>k<N. gMat ! (r - N) ! k)))
        ! (N + r) ! c = vec ! r ! c * (mass ! r * val ! c + damp ! r)"
    if d: "massMat = np_diag mass" "gMat = np_diag damp" and r: "r < N" and c: "c < 2 * N" for r c
  proof -
    have lm: "length mass = N" "length damp = N"
      using mass g d by (simp_all add: shaped_def np_diag_def)
    have "(\<Sum>k<N. massMat ! r ! k * val ! c) = mass ! r * val ! c"
      unfolding d by (rule diag [OF r lm(1)])
    moreover have "(\<Sum>k<N. gMat ! r ! k) = damp ! r"
      using diag [OF r lm(2), of 1] by (simp add: d)
    ultimately show ?thesis using r c by simp
  qed
  then show ?thesis using main by (simp add: Let_def)
qed

theorem coeff_system_witness:
  "calculate_coeff (\<lambda>A B. Inr (A, B)) [1, 2, 3, 4 :: real]
      [[1, 2, 3, 4], [5, 6, 7, 8], [9, 10, 11, 12], [13, 14, 15, 16]]
      [[7, 0], [0, 8]] [[5, 0], [0, 6]] =
     Inr ([[1, 2, 3, 4], [5, 6, 7, 8], [12, 38, 78, 132], [70, 132, 210, 304]],
          [[0, 0], [0, 0], [1, 0], [0, 1]])
   \<and> calculate_coeff (\<lambda>A B. Inl LinAlgError :: error + real matrix) [1, 2, 3, 4 :: real]
      [[1, 2, 3, 4], [5, 6, 7, 8], [9, 10, 11, 12], [13, 14, 15, 16]]
      [[7, 0], [0, 8]] [[5, 0], [0, 6]] = Inl LinAlgError"
proof -
  let ?val = "[1, 2, 3, 4 :: real]"
  let ?vec = "[[1, 2, 3, 4], [5, 6, 7, 8], [9, 10, 11, 12], [13, 14, 15, 16 :: real]]"
  let ?m = "[[7, 0], [0, 8 :: real]]"
  let ?g = "[[5, 0], [0, 6 :: real]]"
  have h: "length ?val = 2 * 2" "shaped (2 * 2) (2 * 2) ?vec" "shaped 2 2 ?m" "shaped 2 2 ?g"
    by (simp_all add: shaped_def)
  have v: "calculate_coeff (\<lambda>A B. Inr (A, B)) ?val ?vec ?m ?g =
     Inr ([[1, 2, 3, 4], [5, 6, 7, 8], [12, 38, 78, 132], [70, 132, 210, 304]],
          [[0, 0], [0, 0], [1, 0], [0, 1]])"
    by code_simp
  from coeff_system [OF h, of "\<lambda>A B. Inl LinAlgError :: error + real matrix"] v
  show ?thesis by (simp add: Let_def)
qed

subsection \<open>A Hessian whose size is not a multiple of the number of masses\<close>

text \<open>
  C2. The claim is that \<open>kappa\<close> fails with a dimension-mismatch error whenever \<open>len(k)\<close> is
  not a multiple of \<open>len(m)\<close>. The function has no check of its own. For an empty \<open>m\<close> the
  division \<open>len(k)//len(m)\<close> raises \<open>ZeroDivisionError\<close>, and the gamma matrix builder, which
  runs first on the truncated \<open>dim\<close>, can raise \<open>IndexError\<close>: two masses, a \<open>5 \<times> 5\<close> Hessian
  and the driven atoms 0 and 1 give \<open>dim = 2\<close>, a \<open>4 \<times> 4\<close> gamma matrix and a write at
  index 4.
\<close>

theorem kappa_mismatch_counterexample:
  "\<not> length ([] :: real list) dvd length [[1 :: real]]
   \<and> kappa (\<lambda>c z. Inl LinAlgError) (\<lambda>A B. Inl LinAlgError)
       ([] :: real list) [[1]] [[0], [1]] [(0, 1)] 10 = Inl ZeroDivisionError
   \<and> \<not> length [1, 1 :: real] dvd length (zeros 5 5 :: real matrix)
   \<and> kappa (\<lambda>c z. Inl LinAlgError) (\<lambda>A B. Inl LinAlgError)
       [1, 1 :: real] (zeros 5 5) [[0], [1]] [(0, 1)] 10 = Inl IndexError"
  by (intro conjI; code_simp)

text \<open>
  C2, as amended. When \<open>len(k)\<close> is not a multiple of \<open>len(m)\<close>, \<open>kappa\<close> never returns a
  value. For an empty \<open>m\<close> the exception is the \<open>ZeroDivisionError\<close> of \<open>len(k)//len(m)\<close>. For a
  nonempty \<open>m\<close>, when \<open>np.array(drivers)\<close> returns (the driver groups have one length) and
  the gamma matrix builder returns, the exception is numpy's dimension mismatch, raised
  where \<open>K\<close> (\<open>len(k)\<close> rows) and \<open>G\<close> (\<open>dim * len(m)\<close> rows) are concatenated side by side.
\<close>

theorem kappa_dimension_mismatch:
  fixes m :: "'a::field list"
  assumes nd: "\<not> length m dvd length k"
  shows "(\<exists>e. kappa eig solve m k drivers crossings gamma = Inl e)
    \<and> (m = [] \<longrightarrow> kappa eig solve m k drivers crossings gamma = Inl ZeroDivisionError)
    \<and> (m \<noteq> [] \<and> np_array drivers = Inr drivers \<and>
         (\<exists>g. calculate_gamma_mat (length k div length m) (length m) gamma drivers = Inr g)
       \<longrightarrow> kappa eig solve m k drivers crossings gamma = Inl (ValueError DimsMustMatch))"
proof -
  have empty: "kappa eig solve m k drivers crossings gamma = Inl ZeroDivisionError" if "m = []"
    using that by (simp add: kappa_def kappa_setup_empty)
  have mm: "kappa eig solve m k drivers crossings gamma = Inl (ValueError DimsMustMatch)"
    if "m \<noteq> []" "np_array drivers = Inr drivers"
      "calculate_gamma_mat (length k div length m) (length m) gamma drivers = Inr g"
    for g
    using kappa_setup_mismatch [OF that(1) nd that(2,3)] by (simp add: kappa_def)
  have "\<exists>e. kappa eig solve m k drivers crossings gamma = Inl e"
  proof (cases "m = []")
    case True
    then show ?thesis using empty by simp
  next
    case False
    from np_array_cases [of drivers] show ?thesis
    proof
      assume d: "np_array drivers = Inr drivers"
      show ?thesis
      proof (cases "calculate_gamma_mat (length k div length m) (length m) gamma drivers")
        case (Inl e)
        then show ?thesis using False d by (simp add: kappa_def kappa_setup_def)
      next
        case (Inr g)
        then show ?thesis using mm [OF False d] by simp
      qed
    next
      assume "np_array drivers = Inl (ValueError InhomogeneousShape)"
      then show ?thesis using False by (simp add: kappa_def kappa_setup_def)
    qed
  qed
  then show ?thesis using empty mm by blast
qed

theorem kappa_dimension_mismatch_witness:
  "kappa (\<lambda>c z. Inl LinAlgError) (\<lambda>A B. Inl LinAlgError)
     [1, 1 :: real] (zeros 7 7) [[0], [1]] [(0, 1)] 10 = Inl (ValueError DimsMustMatch)
   \<and> kappa (\<lambda>c z. Inl LinAlgError) (\<lambda>A B. Inl LinAlgError)
     ([] :: real list) (zeros 7 7) [[0], [1]] [(0, 1)] 10 = Inl ZeroDivisionError"
proof -
  have nd: "\<not> length [1, 1 :: real] dvd length (zeros 7 7 :: real matrix)"
    by code_simp
  have nd0: "\<not> length ([] :: real list) dvd length (zeros 7 7 :: real matrix)"
    by code_simp
  have len: "length (zeros 7 7 :: real matrix) = 7"
    by (simp add: zeros_def)
  have d: "np_array [[0], [1 :: nat]] = Inr [[0], [1]]"
    by code_simp
  have g: "calculate_gamma_mat 3 2 (10 :: real) [[0], [1]] =
      Inr [[10, 0, 0, 0, 0, 0], [0, 10, 0, 0, 0, 0], [0, 0, 10, 0, 0, 0],
           [0, 0, 0, 10, 0, 0], [0, 0, 0, 0, 10, 0], [0, 0, 0, 0, 0, 10]]"
    by code_simp
  have e: "(7 :: nat) div 2 = 3" "length [1, 1 :: real] = 2"
    by simp_all
  have g': "\<exists>g. calculate_gamma_mat (length (zeros 7 7 :: real matrix) div length [1, 1 :: real])
      (length [1, 1 :: real]) (10 :: real) [[0], [1]] = Inr g"
    by (simp only: len e g) blast
  have one: "kappa (\<lambda>c z. Inl LinAlgError) (\<lambda>A B. Inl LinAlgError)
     [1, 1 :: real] (zeros 7 7) [[0], [1]] [(0, 1)] 10 = Inl (ValueError DimsMustMatch)"
    using kappa_dimension_mismatch [OF nd, of "\<lambda>c z. Inl LinAlgError" "\<lambda>A B. Inl LinAlgError"
      "[[0], [1]]" "[(0, 1)]" 10] g' d
    by simp
  have two: "kappa (\<lambda>c z. Inl LinAlgError) (\<lambda>A B. Inl LinAlgError)
     ([] :: real list) (zeros 7 7) [[0], [1]] [(0, 1)] 10 = Inl ZeroDivisionError"
    using kappa_dimension_mismatch [OF nd0, of "\<lambda>c z. Inl LinAlgError" "\<lambda>A B. Inl LinAlgError"
      "[[0], [1]]" "[(0, 1)]" 10]
    by simp
  from one two show ?thesis by simp
qed

end
